theory Spec2Isabelle
  imports Complex_Main
begin

section \<open>Connection docking of diagram-js\<close>

text \<open>
  The development embeds the two docking strategies of \<^verbatim>\<open>lib/layout\<close>:
  \<^verbatim>\<open>ConnectionDocking\<close> (the identity docking) and
  \<^verbatim>\<open>CroppingConnectionDocking\<close> (the cropping engine).

  JavaScript values are modelled as follows.
  \<^item> A point object is a \<open>waypoint\<close>: its own properties \<^verbatim>\<open>x\<close>, \<^verbatim>\<open>y\<close> and
    \<^verbatim>\<open>original\<close>. A property is absent, or it is an own property of the object, whose
    value can be \<^verbatim>\<open>undefined\<close> or \<^verbatim>\<open>null\<close>: \<^verbatim>\<open>Object.assign\<close> copies an
    own property whatever its value, and skips an absent one. The code never computes with
    a coordinate, it only copies them, so a coordinate is a \<open>real\<close>.
  \<^item> The value of a variable or of an expression that is an object, \<^verbatim>\<open>undefined\<close> or
    \<^verbatim>\<open>null\<close> is an \<open>option\<close>, \<open>None\<close> for the two falsy values; every object
    and every array is truthy.
  \<^item> An array of waypoints is a list of point objects, as the declared type
    \<^verbatim>\<open>Array<Point>\<close> says; reading it out of range gives \<^verbatim>\<open>undefined\<close>. Arrays
    with \<^verbatim>\<open>undefined\<close> elements are part of the embedding on a store further down.
  \<^item> Reading a property of \<^verbatim>\<open>undefined\<close> throws a \<^verbatim>\<open>TypeError\<close>; a function that
    can throw returns \<open>error + 'a\<close>.
\<close>

subsection \<open>JavaScript values\<close>

datatype 'a property = Absent | Undefined | Null | Value 'a

datatype waypoint =
  Waypoint (wp_x: "real property") (wp_y: "real property") (original: "waypoint property")

datatype error = TypeError

text \<open>\<^verbatim>\<open>a || b\<close> on values that are an object or \<^verbatim>\<open>undefined\<close>.\<close>

definition js_or :: "'a option \<Rightarrow> 'a option \<Rightarrow> 'a option" where
  "js_or a b = (case a of Some v \<Rightarrow> Some v | None \<Rightarrow> b)"

text \<open>
  Reading a property, \<^verbatim>\<open>o.p\<close>, where only the truth of the value and the object it
  may be matter; and the property \<^verbatim>\<open>p: v\<close> of an object literal.
\<close>

definition read :: "'a property \<Rightarrow> 'a option" where
  "read p = (case p of Value v \<Rightarrow> Some v | _ \<Rightarrow> None)"

definition own :: "'a option \<Rightarrow> 'a property" where
  "own v = (case v of Some w \<Rightarrow> Value w | None \<Rightarrow> Undefined)"

text \<open>\<^verbatim>\<open>xs[i]\<close> for an integer \<open>i\<close>: \<^verbatim>\<open>undefined\<close> out of range.\<close>

definition js_index :: "'a list \<Rightarrow> int \<Rightarrow> 'a option" where
  "js_index xs i = (if 0 \<le> i \<and> i < int (length xs) then Some (xs ! nat i) else None)"

text \<open>
  \<^verbatim>\<open>Array.prototype.slice(start, end)\<close> with integer arguments: a negative index
  counts from the end, both indices are clamped to the array.
\<close>

definition js_slice :: "'a list \<Rightarrow> int \<Rightarrow> int \<Rightarrow> 'a list" where
  "js_slice xs start fin =
     (let len = int (length xs);
          k = (if start < 0 then max (len + start) 0 else min start len);
          final = (if fin < 0 then max (len + fin) 0 else min fin len)
      in take (nat (final - k)) (drop (nat k) xs))"

text \<open>
  \<^verbatim>\<open>assign(target, source)\<close> of min-dash (\<^verbatim>\<open>Object.assign\<close>): every own property
  of the source is written to the target, also when its value is \<^verbatim>\<open>undefined\<close> or
  \<^verbatim>\<open>null\<close>, replacing a property the target already has; an \<^verbatim>\<open>undefined\<close>
  source is skipped.
\<close>

definition assign_property :: "'a property \<Rightarrow> 'a property \<Rightarrow> 'a property" where
  "assign_property src tgt = (case src of Absent \<Rightarrow> tgt | _ \<Rightarrow> src)"

definition assign :: "waypoint \<Rightarrow> waypoint option \<Rightarrow> waypoint" where
  "assign tgt src =
     (case src of
        None \<Rightarrow> tgt
      | Some s \<Rightarrow>
          Waypoint (assign_property (wp_x s) (wp_x tgt)) (assign_property (wp_y s) (wp_y tgt))
                   (assign_property (original s) (original tgt)))"

subsection \<open>Collaborators\<close>

text \<open>
  The graphics factory (\<^verbatim>\<open>getShapePath\<close>, \<^verbatim>\<open>getConnectionPath\<close>) and
  \<^verbatim>\<open>getElementLineIntersection\<close> of \<^verbatim>\<open>LayoutUtil\<close> are not part of the sources.
  They are parameters: shape paths \<open>'sp\<close> and connection paths \<open>'cp\<close> are opaque, a
  shape argument may be \<^verbatim>\<open>undefined\<close>, and the intersection is an object or
  \<^verbatim>\<open>null\<close>. The three functions are taken to return; what happens when one of them
  throws is outside the model. The record stands for \<^verbatim>\<open>this\<close>: the methods
  \<^verbatim>\<open>_getShapePath\<close> and \<^verbatim>\<open>_getConnectionPath\<close> only forward to the graphics
  factory.
\<close>

record ('s, 'sp, 'cp) collaborators =
  getShapePath :: "'s option \<Rightarrow> 'sp"
  getConnectionPath :: "waypoint list \<Rightarrow> 'cp"
  getElementLineIntersection :: "'sp \<Rightarrow> 'cp \<Rightarrow> bool \<Rightarrow> waypoint option"

text \<open>
  Modelled from the spec: the Path Intersection Primitive, \<^verbatim>\<open>getElementLineIntersection\<close>
  of \<^verbatim>\<open>LayoutUtil\<close>, is not among the sources. By sections 4.3, 4.4 and 6 of the
  specification the shape path handed to it may be undefined or empty, which says that no
  boundary is available, and then it finds no intersection. A shape path is a list of
  segments here, \<open>None\<close> when it is undefined; which crossing of a boundary is reported
  is left to the parameter \<open>crossing\<close>.
\<close>

definition intersect ::
  "('seg list \<Rightarrow> 'cp \<Rightarrow> bool \<Rightarrow> waypoint option) \<Rightarrow> 'seg list option \<Rightarrow> 'cp \<Rightarrow> bool
     \<Rightarrow> waypoint option" where
  "intersect crossing shapePath connectionPath preferFirst =
     (case shapePath of
        None \<Rightarrow> None
      | Some [] \<Rightarrow> None
      | Some (seg # segs) \<Rightarrow> crossing (seg # segs) connectionPath preferFirst)"

text \<open>
  A waypoint of the specification's data model carries an \<^verbatim>\<open>original\<close> point or none:
  its property \<^verbatim>\<open>original\<close> is absent or a point object.
\<close>

definition original_absent_or_point :: "waypoint \<Rightarrow> bool" where
  "original_absent_or_point w =
     (case original w of Absent \<Rightarrow> True | Value v \<Rightarrow> True | _ \<Rightarrow> False)"

subsection \<open>Docking point descriptors and connections\<close>

record docking_point_descriptor =
  point :: "waypoint option"
  actual :: "waypoint option"
  idx :: int

text \<open>
  The first argument of \<^verbatim>\<open>getCroppedWaypoints\<close> is a connection or a bare array of
  waypoints. An array has no \<^verbatim>\<open>source\<close>, \<^verbatim>\<open>target\<close> or \<^verbatim>\<open>waypoints\<close> property.
\<close>

datatype 's connectionOrWaypoints =
  Connection "'s option" "'s option" "waypoint list"
| Waypoints "waypoint list"

fun prop_source :: "'s connectionOrWaypoints \<Rightarrow> 's option" where
  "prop_source (Connection s t w) = s"
| "prop_source (Waypoints w) = None"

fun prop_target :: "'s connectionOrWaypoints \<Rightarrow> 's option" where
  "prop_target (Connection s t w) = t"
| "prop_target (Waypoints w) = None"

text \<open>\<^verbatim>\<open>connectionOrWaypoints.waypoints || connectionOrWaypoints\<close>\<close>

fun waypoints_or_self :: "'s connectionOrWaypoints \<Rightarrow> waypoint list" where
  "waypoints_or_self (Connection s t w) = w"
| "waypoints_or_self (Waypoints w) = w"

subsection \<open>ConnectionDocking: the identity docking\<close>

definition ConnectionDocking_getCroppedWaypoints ::
  "'s connectionOrWaypoints \<Rightarrow> 's option \<Rightarrow> 's option \<Rightarrow> waypoint list" where
  "ConnectionDocking_getCroppedWaypoints connectionOrWaypoints src tgt =
     waypoints_or_self connectionOrWaypoints"

definition ConnectionDocking_getDockingPoint ::
  "waypoint list \<Rightarrow> 's option \<Rightarrow> bool \<Rightarrow> docking_point_descriptor" where
  "ConnectionDocking_getDockingPoint wps shape dockStart =
     (let dockingIdx = (if dockStart then 0 else int (length wps) - 1);
          dockingPoint = js_index wps dockingIdx
      in \<lparr> point = dockingPoint, actual = dockingPoint, idx = dockingIdx \<rparr>)"

subsection \<open>CroppingConnectionDocking\<close>

text \<open>
  \<^verbatim>\<open>assign({ original: docking.point.original || docking.point }, docking.actual)\<close>:
  the argument \<^verbatim>\<open>docking.point.original\<close> throws when \<^verbatim>\<open>docking.point\<close> is
  \<^verbatim>\<open>undefined\<close>.
\<close>

definition dockingToPoint :: "docking_point_descriptor \<Rightarrow> error + waypoint" where
  "dockingToPoint docking =
     (case point docking of
        None \<Rightarrow> Inl TypeError
      | Some p \<Rightarrow>
          Inr (assign (Waypoint Absent Absent (own (js_or (read (original p)) (Some p))))
                 (actual docking)))"

definition getIntersection ::
  "('s, 'sp, 'cp) collaborators \<Rightarrow> 's option \<Rightarrow> waypoint list \<Rightarrow> bool \<Rightarrow> waypoint option" where
  "getIntersection this shape wps takeFirst =
     (let shapePath = getShapePath this shape;
          connectionPath = getConnectionPath this wps
      in getElementLineIntersection this shapePath connectionPath takeFirst)"

definition getDockingPoint ::
  "('s, 'sp, 'cp) collaborators \<Rightarrow> waypoint list \<Rightarrow> 's option \<Rightarrow> bool
     \<Rightarrow> docking_point_descriptor" where
  "getDockingPoint this wps shape dockStart =
     (let dockingIdx = (if dockStart then 0 else int (length wps) - 1);
          dockingPoint = js_index wps dockingIdx;
          croppedPoint = getIntersection this shape wps dockStart
      in \<lparr> point = dockingPoint,
           actual = js_or croppedPoint dockingPoint,
           idx = dockingIdx \<rparr>)"

text \<open>
  The target docking is computed by \<^verbatim>\<open>this.getDockingPoint(waypoints, target)\<close>: the
  third argument is \<^verbatim>\<open>undefined\<close>, which is falsy, hence \<open>False\<close>. The two
  \<^verbatim>\<open>dockingToPoint\<close> calls run in the order of the source: the one of the source
  docking first.
\<close>

definition getCroppedWaypoints ::
  "('s, 'sp, 'cp) collaborators \<Rightarrow> 's connectionOrWaypoints \<Rightarrow> 's option \<Rightarrow> 's option
     \<Rightarrow> error + waypoint list" where
  "getCroppedWaypoints this connectionOrWaypoints src tgt =
     (let source = js_or src (prop_source connectionOrWaypoints);
          target = js_or tgt (prop_target connectionOrWaypoints);
          wps = waypoints_or_self connectionOrWaypoints;
          sourceDocking = getDockingPoint this wps source True;
          targetDocking = getDockingPoint this wps target False;
          croppedWaypoints = js_slice wps (idx sourceDocking + 1) (idx targetDocking)
      in case dockingToPoint sourceDocking of
           Inl e \<Rightarrow> Inl e
         | Inr s \<Rightarrow>
             (case dockingToPoint targetDocking of
                Inl e \<Rightarrow> Inl e
              | Inr t \<Rightarrow> Inr (s # croppedWaypoints @ [t])))"

section \<open>The same code on an explicit store\<close>

text \<open>
  Whether the code changes its arguments cannot be read off a function on values. The
  cropping engine is therefore embedded a second time, on a store: point objects, arrays
  and connections live in the store and are passed by reference, and every statement of
  the source that allocates or writes (\<^verbatim>\<open>slice\<close>, the object literal, \<^verbatim>\<open>assign\<close>,
  \<^verbatim>\<open>unshift\<close>, \<^verbatim>\<open>push\<close>) is an allocation or a write of the model.

  A reference is the index of a cell; allocation appends a cell. A value that is an
  object or \<^verbatim>\<open>undefined\<close> is a \<open>ref option\<close>, and so is an element of an array:
  \<open>None\<close> is \<^verbatim>\<open>undefined\<close>, of which reading a property throws. A program has no
  reference to a cell that does not exist, and \<open>valid_input\<close> below says so of the
  argument. A reference beyond the store is no value of the program; the functions are
  defined on it only to be total.
  The collaborators are taken to be read-only: the connection path may depend on the
  store, and the object returned by the intersection primitive is allocated by the call.
\<close>

subsection \<open>The store\<close>

type_synonym ref = nat

record js_object =
  prop_x :: "real property"
  prop_y :: "real property"
  prop_original :: "ref property"

record 's js_connection =
  conn_source :: "'s option"
  conn_target :: "'s option"
  conn_waypoints :: ref

record 's heap =
  objects :: "js_object list"
  arrays :: "ref option list list"
  connections :: "'s js_connection list"

definition lookup :: "'a list \<Rightarrow> ref \<Rightarrow> 'a option" where
  "lookup cells r = (if r < length cells then Some (cells ! r) else None)"

text \<open>\<^verbatim>\<open>xs[i]\<close> for an array whose elements are references or \<^verbatim>\<open>undefined\<close>.\<close>

definition js_element :: "'a option list \<Rightarrow> int \<Rightarrow> 'a option" where
  "js_element xs i = (case js_index xs i of None \<Rightarrow> None | Some v \<Rightarrow> v)"

definition alloc_object :: "'s heap \<Rightarrow> js_object \<Rightarrow> ref \<times> 's heap" where
  "alloc_object h ob = (length (objects h), h \<lparr> objects := objects h @ [ob] \<rparr>)"

definition alloc_array :: "'s heap \<Rightarrow> ref option list \<Rightarrow> ref \<times> 's heap" where
  "alloc_array h refs = (length (arrays h), h \<lparr> arrays := arrays h @ [refs] \<rparr>)"

text \<open>
  \<^verbatim>\<open>assign(target, source)\<close>, \<^verbatim>\<open>array.unshift(v)\<close> and \<^verbatim>\<open>array.push(v)\<close>
  write to the cell of their first argument. The code calls them on the object and on the
  array it has just created, so the first argument always refers to a cell; the model
  leaves the store as it is otherwise.
\<close>

definition assign_heap :: "'s heap \<Rightarrow> ref \<Rightarrow> ref option \<Rightarrow> 's heap" where
  "assign_heap h target src =
     (case src of
        None \<Rightarrow> h
      | Some s \<Rightarrow>
          (case lookup (objects h) target of
             None \<Rightarrow> h
           | Some tob \<Rightarrow>
               (case lookup (objects h) s of
                  None \<Rightarrow> h
                | Some sob \<Rightarrow>
                    h \<lparr> objects := (objects h)
                      [target := \<lparr> prop_x = assign_property (prop_x sob) (prop_x tob),
                                   prop_y = assign_property (prop_y sob) (prop_y tob),
                                   prop_original =
                                     assign_property (prop_original sob) (prop_original tob) \<rparr>] \<rparr>)))"

definition unshift :: "'s heap \<Rightarrow> ref \<Rightarrow> ref \<Rightarrow> 's heap" where
  "unshift h arr v =
     (case lookup (arrays h) arr of
        None \<Rightarrow> h
      | Some refs \<Rightarrow> h \<lparr> arrays := (arrays h) [arr := Some v # refs] \<rparr>)"

definition push :: "'s heap \<Rightarrow> ref \<Rightarrow> ref \<Rightarrow> 's heap" where
  "push h arr v =
     (case lookup (arrays h) arr of
        None \<Rightarrow> h
      | Some refs \<Rightarrow> h \<lparr> arrays := (arrays h) [arr := refs @ [Some v]] \<rparr>)"

subsection \<open>CroppingConnectionDocking on the store\<close>

record ('s, 'sp, 'cp) heap_collaborators =
  heap_getShapePath :: "'s option \<Rightarrow> 'sp"
  heap_getConnectionPath :: "'s heap \<Rightarrow> ref \<Rightarrow> 'cp"
  heap_getElementLineIntersection :: "'sp \<Rightarrow> 'cp \<Rightarrow> bool \<Rightarrow> js_object option"

record heap_docking_point_descriptor =
  point_ref :: "ref option"
  actual_ref :: "ref option"
  idx_of :: int

datatype connectionOrWaypoints_ref = ConnectionRef ref | WaypointsRef ref

definition dockingToPoint_heap ::
  "'s heap \<Rightarrow> heap_docking_point_descriptor \<Rightarrow> (error + ref) \<times> 's heap" where
  "dockingToPoint_heap h docking =
     (case point_ref docking of
        None \<Rightarrow> (Inl TypeError, h)
      | Some p \<Rightarrow>
          (case lookup (objects h) p of
             None \<Rightarrow> (Inl TypeError, h)
           | Some pob \<Rightarrow>
               (let (target, h1) = alloc_object h
                      \<lparr> prop_x = Absent, prop_y = Absent,
                        prop_original = own (js_or (read (prop_original pob)) (Some p)) \<rparr>
                in (Inr target, assign_heap h1 target (actual_ref docking)))))"

definition getIntersection_heap ::
  "('s, 'sp, 'cp) heap_collaborators \<Rightarrow> 's heap \<Rightarrow> 's option \<Rightarrow> ref \<Rightarrow> bool
     \<Rightarrow> ref option \<times> 's heap" where
  "getIntersection_heap this h shape waypoints takeFirst =
     (let shapePath = heap_getShapePath this shape;
          connectionPath = heap_getConnectionPath this h waypoints
      in case heap_getElementLineIntersection this shapePath connectionPath takeFirst of
           None \<Rightarrow> (None, h)
         | Some ob \<Rightarrow> (let (r, h1) = alloc_object h ob in (Some r, h1)))"

definition getDockingPoint_heap ::
  "('s, 'sp, 'cp) heap_collaborators \<Rightarrow> 's heap \<Rightarrow> ref \<Rightarrow> 's option \<Rightarrow> bool
     \<Rightarrow> (error + heap_docking_point_descriptor) \<times> 's heap" where
  "getDockingPoint_heap this h waypoints shape dockStart =
     (case lookup (arrays h) waypoints of
        None \<Rightarrow> (Inl TypeError, h)
      | Some refs \<Rightarrow>
          (let dockingIdx = (if dockStart then 0 else int (length refs) - 1);
               dockingPoint = js_element refs dockingIdx;
               (croppedPoint, h1) = getIntersection_heap this h shape waypoints dockStart
           in (Inr \<lparr> point_ref = dockingPoint,
                     actual_ref = js_or croppedPoint dockingPoint,
                     idx_of = dockingIdx \<rparr>, h1)))"

text \<open>
  The properties \<^verbatim>\<open>source\<close>, \<^verbatim>\<open>target\<close> and
  \<^verbatim>\<open>waypoints || connectionOrWaypoints\<close> of the first argument; \<open>None\<close> when the
  argument is \<^verbatim>\<open>undefined\<close>.
\<close>

fun heap_props ::
  "'s heap \<Rightarrow> connectionOrWaypoints_ref \<Rightarrow> ('s option \<times> 's option \<times> ref) option" where
  "heap_props h (WaypointsRef a) = Some (None, None, a)"
| "heap_props h (ConnectionRef a) =
     (case lookup (connections h) a of
        None \<Rightarrow> None
      | Some c \<Rightarrow> Some (conn_source c, conn_target c, conn_waypoints c))"

definition getCroppedWaypoints_heap ::
  "('s, 'sp, 'cp) heap_collaborators \<Rightarrow> 's heap \<Rightarrow> connectionOrWaypoints_ref
     \<Rightarrow> 's option \<Rightarrow> 's option \<Rightarrow> (error + ref) \<times> 's heap" where
  "getCroppedWaypoints_heap this h connectionOrWaypoints src tgt =
     (case heap_props h connectionOrWaypoints of
        None \<Rightarrow> (Inl TypeError, h)
      | Some (connSource, connTarget, waypoints) \<Rightarrow>
          (let source = js_or src connSource;
               target = js_or tgt connTarget
           in case getDockingPoint_heap this h waypoints source True of
                (Inl e, h1) \<Rightarrow> (Inl e, h1)
              | (Inr sourceDocking, h1) \<Rightarrow>
          (case getDockingPoint_heap this h1 waypoints target False of
                (Inl e, h2) \<Rightarrow> (Inl e, h2)
              | (Inr targetDocking, h2) \<Rightarrow>
          (case lookup (arrays h2) waypoints of
                None \<Rightarrow> (Inl TypeError, h2)
              | Some refs \<Rightarrow>
          (let (croppedWaypoints, h3) = alloc_array h2
                 (js_slice refs (idx_of sourceDocking + 1) (idx_of targetDocking))
           in case dockingToPoint_heap h3 sourceDocking of
                (Inl e, h4) \<Rightarrow> (Inl e, h4)
              | (Inr s, h4) \<Rightarrow>
          (case dockingToPoint_heap (unshift h4 croppedWaypoints s) targetDocking of
                (Inl e, h5) \<Rightarrow> (Inl e, h5)
              | (Inr t, h5) \<Rightarrow> (Inr croppedWaypoints, push h5 croppedWaypoints t)))))))"

subsection \<open>Observations\<close>

text \<open>
  \<open>unchanged h h'\<close>: every object, array and connection of \<open>h\<close> is in \<open>h'\<close>, at its
  address and with its contents. \<open>returned_waypoints\<close> and \<open>returned_descriptor\<close> read
  what a call returned: the objects of the returned array, respectively the docking point,
  the contents of the actual point and the index. \<open>valid_input\<close>: the argument refers to
  an array of the store whose elements are objects of the store or \<^verbatim>\<open>undefined\<close>.
\<close>

definition unchanged :: "'s heap \<Rightarrow> 's heap \<Rightarrow> bool" where
  "unchanged h h' \<longleftrightarrow>
     take (length (objects h)) (objects h') = objects h
   \<and> take (length (arrays h)) (arrays h') = arrays h
   \<and> connections h' = connections h"

definition deref :: "js_object list \<Rightarrow> ref option \<Rightarrow> js_object option" where
  "deref objs v = (case v of None \<Rightarrow> None | Some r \<Rightarrow> lookup objs r)"

definition returned_waypoints :: "(error + ref) \<times> 's heap \<Rightarrow> error + js_object option list" where
  "returned_waypoints run =
     (case run of
        (Inl e, h) \<Rightarrow> Inl e
      | (Inr a, h) \<Rightarrow>
          Inr (case lookup (arrays h) a of
                 None \<Rightarrow> []
               | Some refs \<Rightarrow> map (deref (objects h)) refs))"

definition returned_descriptor ::
  "(error + heap_docking_point_descriptor) \<times> 's heap
     \<Rightarrow> error + (ref option \<times> js_object option \<times> int)" where
  "returned_descriptor run =
     (case run of
        (Inl e, h) \<Rightarrow> Inl e
      | (Inr d, h) \<Rightarrow>
          Inr (point_ref d, deref (objects h) (actual_ref d), idx_of d))"

definition valid_input :: "'s heap \<Rightarrow> connectionOrWaypoints_ref \<Rightarrow> bool" where
  "valid_input h c =
     (case heap_props h c of
        None \<Rightarrow> False
      | Some (cs, ct, wa) \<Rightarrow>
          (case lookup (arrays h) wa of
             None \<Rightarrow> False
           | Some refs \<Rightarrow>
               list_all (\<lambda>v. case v of None \<Rightarrow> True | Some r \<Rightarrow> r < length (objects h)) refs))"

text \<open>
  The two embeddings are related by \<open>represents\<close>: a reference represents a waypoint
  value when the object it refers to has the coordinates of the value and, recursively,
  an \<^verbatim>\<open>original\<close> exactly when the value has one.
\<close>

fun matches :: "js_object list \<Rightarrow> js_object \<Rightarrow> waypoint \<Rightarrow> bool" where
  "matches objs ob (Waypoint x y orig) =
     (prop_x ob = x \<and> prop_y ob = y \<and>
      (case orig of
         Absent \<Rightarrow> prop_original ob = Absent
       | Undefined \<Rightarrow> prop_original ob = Undefined
       | Null \<Rightarrow> prop_original ob = Null
       | Value w \<Rightarrow>
           (case prop_original ob of
              Value r \<Rightarrow>
                (case lookup objs r of
                   None \<Rightarrow> False
                 | Some ob' \<Rightarrow> matches objs ob' w)
            | _ \<Rightarrow> False)))"

definition represents :: "js_object list \<Rightarrow> ref option \<Rightarrow> waypoint \<Rightarrow> bool" where
  "represents objs v w =
     (case deref objs v of None \<Rightarrow> False | Some ob \<Rightarrow> matches objs ob w)"

text \<open>
  \<open>cropped_end p a\<close> abbreviates the object that \<^verbatim>\<open>dockingToPoint\<close> builds from the
  docking point \<open>p\<close> and the actual point \<open>a\<close>; \<open>merged_object\<close> is the same on the
  store.
\<close>

abbreviation cropped_end :: "waypoint \<Rightarrow> waypoint \<Rightarrow> waypoint" where
  "cropped_end p a \<equiv>
     Waypoint (wp_x a) (wp_y a)
       (assign_property (original a) (own (js_or (read (original p)) (Some p))))"

abbreviation merged_object :: "js_object \<Rightarrow> ref \<Rightarrow> js_object \<Rightarrow> js_object" where
  "merged_object pob p aob \<equiv>
     \<lparr> prop_x = prop_x aob, prop_y = prop_y aob,
       prop_original =
         assign_property (prop_original aob) (own (js_or (read (prop_original pob)) (Some p))) \<rparr>"

section \<open>Example configurations\<close>

text \<open>
  The worked example of the specification, used to instantiate the theorems below: shape
  \<open>1\<close> is the source rectangle spanning \<open>[0,100] \<times> [0,100]\<close>, shape \<open>2\<close> the target
  rectangle spanning \<open>[200,300] \<times> [0,100]\<close>. A shape's path is the shape itself, a
  connection's path its waypoints, and the intersection is tabulated for the connector
  from \<open>(50,50)\<close> to \<open>(250,50)\<close>: it leaves the source at \<open>(100,50)\<close> and enters the
  target at \<open>(200,50)\<close>. A missing shape has no crossing.
\<close>

definition example_this :: "(nat, nat option, waypoint list) collaborators" where
  "example_this =
     \<lparr> getShapePath = (\<lambda>shape. shape),
       getConnectionPath = (\<lambda>wps. wps),
       getElementLineIntersection = (\<lambda>shapePath connectionPath takeFirst.
         if shapePath = Some 1 \<and> takeFirst then Some (Waypoint (Value 100) (Value 50) Absent)
         else if shapePath = Some 2 \<and> \<not> takeFirst then Some (Waypoint (Value 200) (Value 50) Absent)
         else None) \<rparr>"

definition pt :: "real \<Rightarrow> real \<Rightarrow> waypoint" where
  "pt a b = Waypoint (Value a) (Value b) Absent"

text \<open>
  The same shapes with shape paths that are lists of segments: the source rectangle has
  its four sides, the target has an empty path, and a missing shape has no path at all.
  The intersection is the primitive modelled from the specification; on the source's
  boundary the connector starting at \<open>(50,50)\<close> crosses at \<open>(100,50)\<close>.
\<close>

definition example_boundary_this :: "(nat, nat list option, waypoint list) collaborators" where
  "example_boundary_this =
     \<lparr> getShapePath = (\<lambda>shape. case shape of
          None \<Rightarrow> None
        | Some s \<Rightarrow> if s = 1 then Some [0, 1, 2, 3] else Some []),
       getConnectionPath = (\<lambda>wps. wps),
       getElementLineIntersection =
         intersect (\<lambda>segments connectionPath preferFirst. Some (pt 100 50)) \<rparr>"

text \<open>
  On the store: a connection from shape \<open>1\<close> to shape \<open>2\<close> with three waypoints, the
  last of which carries an \<^verbatim>\<open>original\<close>. The connection path is the list of the
  waypoint objects, and the crossings are those of the example above.
\<close>

definition example_heap :: "nat heap" where
  "example_heap =
     \<lparr> objects = [\<lparr> prop_x = Value 50, prop_y = Value 50, prop_original = Absent \<rparr>,
                  \<lparr> prop_x = Value 50, prop_y = Value 200, prop_original = Absent \<rparr>,
                  \<lparr> prop_x = Value 250, prop_y = Value 50, prop_original = Value 3 \<rparr>,
                  \<lparr> prop_x = Value 260, prop_y = Value 60, prop_original = Absent \<rparr>],
       arrays = [[Some 0, Some 1, Some 2]],
       connections = [\<lparr> conn_source = Some 1, conn_target = Some 2, conn_waypoints = 0 \<rparr>] \<rparr>"

definition example_heap_this :: "(nat, nat option, js_object option list) heap_collaborators" where
  "example_heap_this =
     \<lparr> heap_getShapePath = (\<lambda>shape. shape),
       heap_getConnectionPath = (\<lambda>h waypoints.
         case lookup (arrays h) waypoints of
           None \<Rightarrow> []
         | Some refs \<Rightarrow> map (deref (objects h)) refs),
       heap_getElementLineIntersection = (\<lambda>shapePath connectionPath takeFirst.
         if shapePath = Some 1 \<and> takeFirst
         then Some \<lparr> prop_x = Value 100, prop_y = Value 50, prop_original = Absent \<rparr>
         else if shapePath = Some 2 \<and> \<not> takeFirst
         then Some \<lparr> prop_x = Value 200, prop_y = Value 50, prop_original = Absent \<rparr>
         else None) \<rparr>"

section \<open>Properties\<close>

subsection \<open>Auxiliary facts\<close>

lemma js_index_first: "xs \<noteq> [] \<Longrightarrow> js_index xs 0 = Some (hd xs)"
  by (cases xs) (simp_all add: js_index_def)

lemma js_index_last: "xs \<noteq> [] \<Longrightarrow> js_index xs (int (length xs) - 1) = Some (last xs)"
  by (cases xs rule: rev_cases) (simp_all add: js_index_def nth_append)

lemma js_slice_interior: "js_slice xs 1 (int (length xs) - 1) = butlast (tl xs)"
proof (cases "length xs \<le> 1")
  case True
  then have "butlast (tl xs) = []"
    by (cases xs) (simp_all)
  moreover from True have "js_slice xs 1 (int (length xs) - 1) = []"
    by (cases xs) (simp_all add: js_slice_def Let_def)
  ultimately show ?thesis by simp
next
  case False
  then have "js_slice xs 1 (int (length xs) - 1) = take (length xs - 2) (drop 1 xs)"
    by (simp add: js_slice_def Let_def nat_diff_distrib)
  also have "\<dots> = butlast (tl xs)"
    by (simp add: butlast_conv_take drop_Suc numeral_2_eq_2)
  finally show ?thesis .
qed

lemma interior_nth:
  "butlast (tl xs) = map (\<lambda>i. xs ! i) [1..<length xs - 1]"
  by (rule nth_equalityI) (simp_all add: nth_butlast nth_tl)

lemma point_getDockingPoint:
  "point (getDockingPoint this wps shape dockStart) =
     js_index wps (if dockStart then 0 else int (length wps) - 1)"
  by (simp add: getDockingPoint_def Let_def)

lemma idx_getDockingPoint:
  "idx (getDockingPoint this wps shape dockStart) =
     (if dockStart then 0 else int (length wps) - 1)"
  by (simp add: getDockingPoint_def Let_def)

lemma actual_getDockingPoint:
  "actual (getDockingPoint this wps shape dockStart) =
     js_or (getIntersection this shape wps dockStart)
           (js_index wps (if dockStart then 0 else int (length wps) - 1))"
  by (simp add: getDockingPoint_def Let_def)

lemma js_or_simps:
  "js_or (Some v) b = Some v" "js_or None b = b" "js_or a None = a"
  by (simp_all add: js_or_def split: option.splits)

lemma assign_property_simps:
  "assign_property Absent t = t" "assign_property Undefined t = Undefined"
  "assign_property Null t = Null" "assign_property (Value v) t = Value v"
  "assign_property s Absent = s"
  by (simp_all add: assign_property_def split: property.splits)

lemma own_read_or: "own (js_or (read v) (Some p)) = (case v of Value w \<Rightarrow> Value w | _ \<Rightarrow> Value p)"
  by (simp add: own_def read_def js_or_def split: property.splits)

lemma assign_fresh:
  "assign (Waypoint Absent Absent anchor) (Some a) =
     Waypoint (wp_x a) (wp_y a) (assign_property (original a) anchor)"
  by (simp add: assign_def assign_property_simps)

lemma dockingToPoint_Some:
  "point docking = Some p \<Longrightarrow> actual docking = Some a \<Longrightarrow>
     dockingToPoint docking = Inr (cropped_end p a)"
  by (simp add: dockingToPoint_def assign_fresh)

lemma dockingToPoint_undefined:
  "point docking = None \<Longrightarrow> dockingToPoint docking = Inl TypeError"
  by (simp add: dockingToPoint_def)

lemma getDockingPoint_empty:
  "getDockingPoint this [] shape dockStart =
     \<lparr> point = None,
       actual = getIntersection this shape [] dockStart,
       idx = (if dockStart then 0 else - 1) \<rparr>"
  by (simp add: getDockingPoint_def Let_def js_index_def js_or_simps)

lemma actual_defined:
  "wps \<noteq> [] \<Longrightarrow> \<exists>a. actual (getDockingPoint this wps shape dockStart) = Some a"
  by (cases "getIntersection this shape wps dockStart")
     (simp_all add: actual_getDockingPoint js_or_simps js_index_first js_index_last)

lemma point_defined:
  "wps \<noteq> [] \<Longrightarrow>
     point (getDockingPoint this wps shape dockStart) =
       Some (if dockStart then hd wps else last wps)"
  by (simp add: point_getDockingPoint js_index_first js_index_last)

lemma getCroppedWaypoints_nonempty:
  fixes this :: "('s, 'sp, 'cp) collaborators"
  assumes ne: "waypoints_or_self c \<noteq> []"
    and sa: "actual (getDockingPoint this (waypoints_or_self c)
                 (js_or src (prop_source c)) True) = Some a"
    and ta: "actual (getDockingPoint this (waypoints_or_self c)
                 (js_or tgt (prop_target c)) False) = Some b"
  shows "getCroppedWaypoints this c src tgt =
           Inr (cropped_end (hd (waypoints_or_self c)) a
                  # butlast (tl (waypoints_or_self c))
                  @ [cropped_end (last (waypoints_or_self c)) b])"
proof -
  let ?wps = "waypoints_or_self c"
  let ?sd = "getDockingPoint this ?wps (js_or src (prop_source c)) True"
  let ?td = "getDockingPoint this ?wps (js_or tgt (prop_target c)) False"
  have s: "dockingToPoint ?sd = Inr (cropped_end (hd ?wps) a)"
    using ne sa by (simp add: dockingToPoint_Some point_defined)
  have t: "dockingToPoint ?td = Inr (cropped_end (last ?wps) b)"
    using ne ta by (simp add: dockingToPoint_Some point_defined)
  have sl: "js_slice ?wps (idx ?sd + 1) (idx ?td) = butlast (tl ?wps)"
    by (simp add: idx_getDockingPoint js_slice_interior)
  show ?thesis
    unfolding getCroppedWaypoints_def Let_def by (simp add: s t sl)
qed

lemma getCroppedWaypoints_empty:
  "waypoints_or_self c = [] \<Longrightarrow> getCroppedWaypoints this c src tgt = Inl TypeError"
  by (simp add: getCroppedWaypoints_def Let_def dockingToPoint_undefined
      getDockingPoint_empty)

subsection \<open>The identity docking\<close>

text \<open>
  Claim C9. The base \<^verbatim>\<open>ConnectionDocking\<close> returns, for every waypoint list and shape,
  the descriptor \<^verbatim>\<open>{ point: waypoints[idx], actual: waypoints[idx], idx }\<close> with
  \<open>idx = 0\<close> when \<open>dockStart\<close> holds and \<open>idx = length - 1\<close> otherwise (the first
  waypoint of a non-empty list, respectively its last one); the descriptor does not depend
  on the shape, and no geometry is a parameter of the function.
  \<^verbatim>\<open>getCroppedWaypoints\<close> returns the waypoint sequence of the connection, or the
  bare sequence it was given, unchanged.
\<close>

theorem identity_docking:
  "ConnectionDocking_getDockingPoint wps shape dockStart =
     \<lparr> point = js_index wps (if dockStart then 0 else int (length wps) - 1),
       actual = js_index wps (if dockStart then 0 else int (length wps) - 1),
       idx = (if dockStart then 0 else int (length wps) - 1) \<rparr>
   \<and> ConnectionDocking_getDockingPoint (w # ws) shape True =
       \<lparr> point = Some w, actual = Some w, idx = 0 \<rparr>
   \<and> ConnectionDocking_getDockingPoint (ws @ [w]) shape False =
       \<lparr> point = Some w, actual = Some w, idx = int (length (ws @ [w])) - 1 \<rparr>
   \<and> ConnectionDocking_getDockingPoint wps shape dockStart =
       ConnectionDocking_getDockingPoint wps shape' dockStart
   \<and> ConnectionDocking_getCroppedWaypoints (Connection s t wps) src tgt = wps
   \<and> ConnectionDocking_getCroppedWaypoints (Waypoints wps) src tgt = wps"
  by (simp add: ConnectionDocking_getDockingPoint_def
      ConnectionDocking_getCroppedWaypoints_def Let_def js_index_def)

subsection \<open>The docking point of the cropping engine\<close>

text \<open>
  Claim C2. For a waypoint list with at least two points and every shape, the descriptor
  returned by \<^verbatim>\<open>CroppingConnectionDocking.getDockingPoint\<close> has \<open>idx = 0\<close> when
  \<open>dockStart\<close> holds and \<open>idx = length - 1\<close> otherwise, \<open>point = waypoints[idx]\<close>, and
  \<open>actual\<close> is the intersection of the shape's path with the connection's path, computed
  with \<open>dockStart\<close> as the preference flag, when there is one, and \<open>waypoints[idx]\<close>
  when there is none.
\<close>

theorem cropping_docking_point:
  fixes this :: "('s, 'sp, 'cp) collaborators"
  assumes "2 \<le> length wps"
  shows "idx (getDockingPoint this wps shape dockStart) =
           (if dockStart then 0 else int (length wps) - 1)
       \<and> point (getDockingPoint this wps shape dockStart) =
           Some (wps ! (if dockStart then 0 else length wps - 1))
       \<and> actual (getDockingPoint this wps shape dockStart) =
           (case getElementLineIntersection this (getShapePath this shape)
                   (getConnectionPath this wps) dockStart of
              Some croppedPoint \<Rightarrow> Some croppedPoint
            | None \<Rightarrow> Some (wps ! (if dockStart then 0 else length wps - 1)))"
proof -
  have i: "js_index wps (if dockStart then 0 else int (length wps) - 1) =
             Some (wps ! (if dockStart then 0 else length wps - 1))"
    using assms by (auto simp: js_index_def nat_diff_distrib)
  show ?thesis
    by (simp add: idx_getDockingPoint point_getDockingPoint actual_getDockingPoint i
        getIntersection_def js_or_def del: One_nat_def)
qed

theorem cropping_docking_point_witness:
  "2 \<le> length [pt 50 50, pt 50 200, pt 250 50]
   \<and> getDockingPoint example_this [pt 50 50, pt 50 200, pt 250 50] (Some 1) True =
       \<lparr> point = Some (pt 50 50), actual = Some (pt 100 50), idx = 0 \<rparr>
   \<and> getDockingPoint example_this [pt 50 50, pt 50 200, pt 250 50] (Some 1) False =
       \<lparr> point = Some (pt 250 50), actual = Some (pt 250 50), idx = 2 \<rparr>"
  using cropping_docking_point [where wps = "[pt 50 50, pt 50 200, pt 250 50]" and this = example_this
      and shape = "Some 1" and dockStart = True]
    cropping_docking_point [where wps = "[pt 50 50, pt 50 200, pt 250 50]" and this = example_this
      and shape = "Some 1" and dockStart = False]
  by (simp add: example_this_def pt_def getDockingPoint_def getIntersection_def Let_def
      js_index_def js_or_def)

subsection \<open>The cropped waypoints\<close>

text \<open>
  Claim C1. For a connector with at least two waypoints,
  \<^verbatim>\<open>CroppingConnectionDocking.getCroppedWaypoints\<close> returns a list whose first point
  has the coordinates of \<^verbatim>\<open>getDockingPoint(waypoints, source, true).actual\<close> and whose
  last point has the coordinates of \<^verbatim>\<open>getDockingPoint(waypoints, target, false).actual\<close>,
  where source and target are the arguments, or the connection's own when an argument is
  omitted.
\<close>

theorem cropped_ends_are_actual:
  fixes this :: "('s, 'sp, 'cp) collaborators"
  assumes "2 \<le> length (waypoints_or_self c)"
  shows "\<exists>r a b.
           getCroppedWaypoints this c src tgt = Inr r
         \<and> actual (getDockingPoint this (waypoints_or_self c)
              (js_or src (prop_source c)) True) = Some a
         \<and> actual (getDockingPoint this (waypoints_or_self c)
              (js_or tgt (prop_target c)) False) = Some b
         \<and> wp_x (hd r) = wp_x a \<and> wp_y (hd r) = wp_y a
         \<and> wp_x (last r) = wp_x b \<and> wp_y (last r) = wp_y b"
proof -
  let ?wps = "waypoints_or_self c"
  from assms have ne: "?wps \<noteq> []" by auto
  obtain a where a: "actual (getDockingPoint this ?wps (js_or src (prop_source c)) True) = Some a"
    using actual_defined [OF ne] by blast
  obtain b where b: "actual (getDockingPoint this ?wps (js_or tgt (prop_target c)) False) = Some b"
    using actual_defined [OF ne] by blast
  show ?thesis
    using getCroppedWaypoints_nonempty [OF ne a b] a b by simp
qed

theorem cropped_ends_are_actual_witness:
  "2 \<le> length (waypoints_or_self (Connection (Some (1::nat)) (Some 2) [pt 50 50, pt 250 50]))
   \<and> getCroppedWaypoints example_this (Connection (Some 1) (Some 2) [pt 50 50, pt 250 50])
         None None =
       Inr [Waypoint (Value 100) (Value 50) (Value (pt 50 50)),
            Waypoint (Value 200) (Value 50) (Value (pt 250 50))]
   \<and> actual (getDockingPoint example_this [pt 50 50, pt 250 50] (Some 1) True) =
       Some (pt 100 50)
   \<and> actual (getDockingPoint example_this [pt 50 50, pt 250 50] (Some 2) False) =
       Some (pt 200 50)"
  using cropped_ends_are_actual [where this = example_this and src = None and tgt = None
      and c = "Connection (Some 1) (Some 2) [pt 50 50, pt 250 50]"]
  by (simp add: example_this_def pt_def getCroppedWaypoints_def getDockingPoint_def
      getIntersection_def dockingToPoint_def assign_def assign_property_def read_def own_def Let_def
      js_index_def js_or_def
      js_slice_def)

text \<open>
  Claim C3. For a connector with at least two waypoints the cropped list has at least two
  points. With exactly two waypoints the interior slice is empty and the result consists of
  exactly two points, the one built from the source docking and the one built from the
  target docking, which have the coordinates of the source's and of the target's actual
  point.
\<close>

theorem cropped_length:
  fixes this :: "('s, 'sp, 'cp) collaborators"
  assumes "2 \<le> length (waypoints_or_self c)"
  shows "\<exists>r s t a b.
           getCroppedWaypoints this c src tgt = Inr r
         \<and> 2 \<le> length r
         \<and> dockingToPoint (getDockingPoint this (waypoints_or_self c)
              (js_or src (prop_source c)) True) = Inr s
         \<and> dockingToPoint (getDockingPoint this (waypoints_or_self c)
              (js_or tgt (prop_target c)) False) = Inr t
         \<and> actual (getDockingPoint this (waypoints_or_self c)
              (js_or src (prop_source c)) True) = Some a
         \<and> actual (getDockingPoint this (waypoints_or_self c)
              (js_or tgt (prop_target c)) False) = Some b
         \<and> wp_x s = wp_x a \<and> wp_y s = wp_y a \<and> wp_x t = wp_x b \<and> wp_y t = wp_y b
         \<and> (length (waypoints_or_self c) = 2 \<longrightarrow>
               js_slice (waypoints_or_self c)
                 (idx (getDockingPoint this (waypoints_or_self c)
                    (js_or src (prop_source c)) True) + 1)
                 (idx (getDockingPoint this (waypoints_or_self c)
                    (js_or tgt (prop_target c)) False)) = []
             \<and> r = [s, t])"
proof -
  let ?wps = "waypoints_or_self c"
  let ?sd = "getDockingPoint this ?wps (js_or src (prop_source c)) True"
  let ?td = "getDockingPoint this ?wps (js_or tgt (prop_target c)) False"
  from assms have ne: "?wps \<noteq> []" by auto
  obtain a where a: "actual ?sd = Some a"
    using actual_defined [OF ne] by blast
  obtain b where b: "actual ?td = Some b"
    using actual_defined [OF ne] by blast
  have s: "dockingToPoint ?sd = Inr (cropped_end (hd ?wps) a)"
    using ne a by (simp add: dockingToPoint_Some point_defined)
  have t: "dockingToPoint ?td = Inr (cropped_end (last ?wps) b)"
    using ne b by (simp add: dockingToPoint_Some point_defined)
  have sl: "js_slice ?wps (idx ?sd + 1) (idx ?td) = butlast (tl ?wps)"
    by (simp add: idx_getDockingPoint js_slice_interior)
  have two: "length ?wps = 2 \<Longrightarrow> butlast (tl ?wps) = []"
    by (cases ?wps) (auto simp: length_Suc_conv)
  have r: "getCroppedWaypoints this c src tgt =
             Inr (cropped_end (hd ?wps) a # butlast (tl ?wps) @ [cropped_end (last ?wps) b])"
    by (rule getCroppedWaypoints_nonempty [OF ne a b])
  show ?thesis
    unfolding r s t a b sl using two by simp
qed

theorem cropped_length_witness:
  "2 \<le> length (waypoints_or_self (Waypoints [pt 50 50, pt 250 50] :: nat connectionOrWaypoints))
   \<and> getCroppedWaypoints example_this (Waypoints [pt 50 50, pt 250 50]) (Some 1) (Some 2) =
       Inr [Waypoint (Value 100) (Value 50) (Value (pt 50 50)),
            Waypoint (Value 200) (Value 50) (Value (pt 250 50))]
   \<and> js_slice [pt 50 50, pt 250 50] 1 1 = []"
  using cropped_length [where this = example_this and src = "Some 1" and tgt = "Some 2"
      and c = "Waypoints [pt 50 50, pt 250 50]"]
  by (simp add: example_this_def pt_def getCroppedWaypoints_def getDockingPoint_def
      getIntersection_def dockingToPoint_def assign_def assign_property_def read_def own_def Let_def
      js_index_def js_or_def
      js_slice_def)

text \<open>
  Claim C5. Interior preservation: for a connector with \<open>N \<ge> 3\<close> waypoints the result is
  the point built from the source docking, followed by the input waypoints at the indices
  \<open>1\<close> to \<open>N - 2\<close>, unchanged and in their order, followed by the point built from the
  target docking.
\<close>

theorem interior_preservation:
  fixes this :: "('s, 'sp, 'cp) collaborators"
  assumes "3 \<le> length (waypoints_or_self c)"
  shows "\<exists>s t.
           dockingToPoint (getDockingPoint this (waypoints_or_self c)
              (js_or src (prop_source c)) True) = Inr s
         \<and> dockingToPoint (getDockingPoint this (waypoints_or_self c)
              (js_or tgt (prop_target c)) False) = Inr t
         \<and> getCroppedWaypoints this c src tgt =
             Inr ([s] @ map (\<lambda>i. waypoints_or_self c ! i)
                          [1 ..< length (waypoints_or_self c) - 1] @ [t])"
proof -
  let ?wps = "waypoints_or_self c"
  let ?sd = "getDockingPoint this ?wps (js_or src (prop_source c)) True"
  let ?td = "getDockingPoint this ?wps (js_or tgt (prop_target c)) False"
  from assms have ne: "?wps \<noteq> []" by auto
  obtain a where a: "actual ?sd = Some a"
    using actual_defined [OF ne] by blast
  obtain b where b: "actual ?td = Some b"
    using actual_defined [OF ne] by blast
  have s: "dockingToPoint ?sd = Inr (cropped_end (hd ?wps) a)"
    using ne a by (simp add: dockingToPoint_Some point_defined)
  have t: "dockingToPoint ?td = Inr (cropped_end (last ?wps) b)"
    using ne b by (simp add: dockingToPoint_Some point_defined)
  have r: "getCroppedWaypoints this c src tgt =
             Inr (cropped_end (hd ?wps) a # butlast (tl ?wps) @ [cropped_end (last ?wps) b])"
    by (rule getCroppedWaypoints_nonempty [OF ne a b])
  show ?thesis
    unfolding r s t by (simp add: interior_nth del: One_nat_def)
qed

theorem interior_preservation_witness:
  "3 \<le> length (waypoints_or_self
       (Waypoints [pt 50 50, pt 50 200, pt 250 200, pt 250 50] :: nat connectionOrWaypoints))
   \<and> getCroppedWaypoints example_this
         (Waypoints [pt 50 50, pt 50 200, pt 250 200, pt 250 50]) (Some 1) (Some 2) =
       Inr [Waypoint (Value 100) (Value 50) (Value (pt 50 50)), pt 50 200, pt 250 200,
            Waypoint (Value 200) (Value 50) (Value (pt 250 50))]"
  using interior_preservation [where this = example_this and src = "Some 1" and tgt = "Some 2"
      and c = "Waypoints [pt 50 50, pt 50 200, pt 250 200, pt 250 50]"]
  by (simp add: example_this_def pt_def getCroppedWaypoints_def getDockingPoint_def
      getIntersection_def dockingToPoint_def assign_def assign_property_def read_def own_def Let_def
      js_index_def js_or_def
      js_slice_def)

subsection \<open>The logical anchor\<close>

text \<open>
  \<^verbatim>\<open>assign\<close> writes the own properties of the actual point over the fresh object
  \<^verbatim>\<open>{ original: ... }\<close>. An actual point with an own property \<^verbatim>\<open>original\<close>
  therefore replaces the anchor, whatever the value of that property. An intersection is
  a bare point \<open>(x, y)\<close> by the contract of the intersection primitive
  (\<^verbatim>\<open>Point | undefined\<close>); this contract is the hypothesis \<open>bare\<close> below. Without an
  intersection the actual point is the waypoint at the docking index itself, whose
  \<^verbatim>\<open>original\<close>, if it has one, is copied as it is.
\<close>

lemma original_of_actual_wins:
  assumes "point docking = Some p" and "actual docking = Some a" and "original a \<noteq> Absent"
  shows "\<exists>s. dockingToPoint docking = Inr s \<and> original s = original a"
  using assms by (cases "original a") (simp_all add: dockingToPoint_Some assign_property_simps)

lemma actual_cases:
  assumes ne: "wps \<noteq> []"
    and a: "actual (getDockingPoint this wps shape dockStart) = Some a"
  shows "(getIntersection this shape wps dockStart = None
            \<and> a = (if dockStart then hd wps else last wps))
       \<or> getIntersection this shape wps dockStart = Some a"
proof (cases "getIntersection this shape wps dockStart")
  case None
  with ne a show ?thesis
    by (simp add: actual_getDockingPoint js_or_simps js_index_first js_index_last
        split: if_splits)
next
  case (Some p)
  with a show ?thesis
    by (simp add: actual_getDockingPoint js_or_simps)
qed

lemma anchor_kept:
  assumes wf: "original_absent_or_point p"
    and a: "a = p \<or> original a = Absent"
  shows "original (cropped_end p a) = (case original p of Value v \<Rightarrow> Value v | _ \<Rightarrow> Value p)"
  using assms
  by (cases "original p")
     (auto simp: original_absent_or_point_def own_read_or assign_property_simps)

lemma cropped_originals:
  fixes this :: "('s, 'sp, 'cp) collaborators"
  assumes bare: "\<forall>sp cp b p. getElementLineIntersection this sp cp b = Some p \<longrightarrow>
      original p = Absent"
    and ne: "waypoints_or_self c \<noteq> []"
    and wfh: "original_absent_or_point (hd (waypoints_or_self c))"
    and wfl: "original_absent_or_point (last (waypoints_or_self c))"
  shows "\<exists>r. getCroppedWaypoints this c src tgt = Inr r \<and> r \<noteq> []
           \<and> original (hd r) =
               (case original (hd (waypoints_or_self c)) of
                  Value v \<Rightarrow> Value v | _ \<Rightarrow> Value (hd (waypoints_or_self c)))
           \<and> original (last r) =
               (case original (last (waypoints_or_self c)) of
                  Value v \<Rightarrow> Value v | _ \<Rightarrow> Value (last (waypoints_or_self c)))"
proof -
  let ?wps = "waypoints_or_self c"
  obtain a where a: "actual (getDockingPoint this ?wps (js_or src (prop_source c)) True) = Some a"
    using actual_defined [OF ne] by blast
  obtain b where b: "actual (getDockingPoint this ?wps (js_or tgt (prop_target c)) False) = Some b"
    using actual_defined [OF ne] by blast
  have a': "a = hd ?wps \<or> original a = Absent"
    using actual_cases [OF ne a] bare by (auto simp: getIntersection_def Let_def)
  have b': "b = last ?wps \<or> original b = Absent"
    using actual_cases [OF ne b] bare by (auto simp: getIntersection_def Let_def)
  show ?thesis
    using getCroppedWaypoints_nonempty [OF ne a b]
      anchor_kept [OF wfh a'] anchor_kept [OF wfl b']
    by simp
qed

text \<open>
  Claim C4 says that each endpoint of the cropped list carries the \<^verbatim>\<open>original\<close> of the
  input endpoint when that is present and the input endpoint otherwise, and that cropping
  again preserves it. It fails for endpoints with an own property \<^verbatim>\<open>original\<close> whose
  value is \<^verbatim>\<open>undefined\<close>: the source, which has a crossing, gets the input endpoint as
  \<^verbatim>\<open>original\<close>, the target, which has none, keeps \<^verbatim>\<open>undefined\<close>; and when the
  target has a crossing in a second crop, its \<^verbatim>\<open>original\<close> is no longer that of the
  first crop.
\<close>

theorem anchor_preservation_counterexample:
  "getCroppedWaypoints example_this
       (Waypoints [Waypoint (Value 50) (Value 50) Undefined,
                   Waypoint (Value 250) (Value 50) Undefined]) (Some 1) None =
     Inr [Waypoint (Value 100) (Value 50) (Value (Waypoint (Value 50) (Value 50) Undefined)),
          Waypoint (Value 250) (Value 50) Undefined]
   \<and> getCroppedWaypoints example_this
       (Waypoints
          [Waypoint (Value 100) (Value 50) (Value (Waypoint (Value 50) (Value 50) Undefined)),
           Waypoint (Value 250) (Value 50) Undefined]) (Some 1) (Some 2) =
     Inr [Waypoint (Value 100) (Value 50) (Value (Waypoint (Value 50) (Value 50) Undefined)),
          Waypoint (Value 200) (Value 50) (Value (Waypoint (Value 250) (Value 50) Undefined))]"
  by (simp add: example_this_def getCroppedWaypoints_def getDockingPoint_def
      getIntersection_def dockingToPoint_def assign_def assign_property_def read_def own_def
      Let_def js_index_def js_or_def js_slice_def)

text \<open>
  Claim C4 as amended. Logical-anchor preservation, for a connector whose two endpoints
  have an \<^verbatim>\<open>original\<close> property that is absent or a point object: when the
  intersection primitive returns bare points, each endpoint of the list returned by
  \<^verbatim>\<open>getCroppedWaypoints\<close> carries as \<^verbatim>\<open>original\<close> the \<^verbatim>\<open>original\<close> of the
  corresponding input endpoint when that is present, and the input endpoint itself
  otherwise. Consequently cropping the cropped list again, with any shapes and any
  geometry, returns a list whose endpoints carry the \<^verbatim>\<open>original\<close> of the first crop.
\<close>

theorem anchor_preservation:
  fixes this :: "('s, 'sp, 'cp) collaborators"
    and this' :: "('t, 'tp, 'dp) collaborators"
  assumes ne: "waypoints_or_self c \<noteq> []"
    and wfh: "original_absent_or_point (hd (waypoints_or_self c))"
    and wfl: "original_absent_or_point (last (waypoints_or_self c))"
    and bare: "\<forall>sp cp b p. getElementLineIntersection this sp cp b = Some p \<longrightarrow>
      original p = Absent"
    and bare': "\<forall>sp cp b p. getElementLineIntersection this' sp cp b = Some p \<longrightarrow>
      original p = Absent"
  shows "\<exists>r. getCroppedWaypoints this c src tgt = Inr r
           \<and> original (hd r) =
               (case original (hd (waypoints_or_self c)) of
                  Value v \<Rightarrow> Value v | _ \<Rightarrow> Value (hd (waypoints_or_self c)))
           \<and> original (last r) =
               (case original (last (waypoints_or_self c)) of
                  Value v \<Rightarrow> Value v | _ \<Rightarrow> Value (last (waypoints_or_self c)))
           \<and> (\<forall>c' src' tgt'. waypoints_or_self c' = r \<longrightarrow>
                 (\<exists>r'. getCroppedWaypoints this' c' src' tgt' = Inr r'
                    \<and> original (hd r') = original (hd r)
                    \<and> original (last r') = original (last r)))"
proof -
  let ?wps = "waypoints_or_self c"
  obtain r where r: "getCroppedWaypoints this c src tgt = Inr r" and rne: "r \<noteq> []"
    and h: "original (hd r) =
              (case original (hd ?wps) of Value v \<Rightarrow> Value v | _ \<Rightarrow> Value (hd ?wps))"
    and l: "original (last r) =
              (case original (last ?wps) of Value v \<Rightarrow> Value v | _ \<Rightarrow> Value (last ?wps))"
    using cropped_originals [OF bare ne wfh wfl] by blast
  have hs: "\<exists>v. original (hd r) = Value v"
    unfolding h by (cases "original (hd ?wps)") simp_all
  have ls: "\<exists>v. original (last r) = Value v"
    unfolding l by (cases "original (last ?wps)") simp_all
  have again: "\<exists>r'. getCroppedWaypoints this' c' src' tgt' = Inr r'
                 \<and> original (hd r') = original (hd r)
                 \<and> original (last r') = original (last r)"
    if c': "waypoints_or_self c' = r" for c' src' tgt'
  proof -
    from rne c' have ne': "waypoints_or_self c' \<noteq> []" by simp
    from hs c' have wfh': "original_absent_or_point (hd (waypoints_or_self c'))"
      by (auto simp: original_absent_or_point_def)
    from ls c' have wfl': "original_absent_or_point (last (waypoints_or_self c'))"
      by (auto simp: original_absent_or_point_def)
    show ?thesis
      using cropped_originals [OF bare' ne' wfh' wfl', of src' tgt'] hs ls
      by (auto simp: c')
  qed
  show ?thesis
    using r h l again by blast
qed

theorem anchor_preservation_witness:
  "waypoints_or_self (Connection (Some (1::nat)) (Some 2) [pt 50 50, pt 250 50]) \<noteq> []
   \<and> original_absent_or_point (pt 50 50) \<and> original_absent_or_point (pt 250 50)
   \<and> getCroppedWaypoints example_this
         (Connection (Some 1) (Some 2) [pt 50 50, pt 250 50]) None None =
       Inr [Waypoint (Value 100) (Value 50) (Value (pt 50 50)),
            Waypoint (Value 200) (Value 50) (Value (pt 250 50))]
   \<and> getCroppedWaypoints
         (example_this \<lparr> getElementLineIntersection :=
            (\<lambda>shapePath connectionPath takeFirst.
               if takeFirst then Some (pt 120 50) else None) \<rparr>)
         (Connection (Some 1) (Some 2)
            [Waypoint (Value 100) (Value 50) (Value (pt 50 50)),
             Waypoint (Value 200) (Value 50) (Value (pt 250 50))]) None None =
       Inr [Waypoint (Value 120) (Value 50) (Value (pt 50 50)),
            Waypoint (Value 200) (Value 50) (Value (pt 250 50))]"
proof -
  let ?resized = "example_this \<lparr> getElementLineIntersection :=
            (\<lambda>shapePath connectionPath takeFirst.
               if takeFirst then Some (pt 120 50) else None) \<rparr>"
  let ?c = "Connection (Some (1::nat)) (Some 2) [pt 50 50, pt 250 50]"
  have h1: "waypoints_or_self ?c \<noteq> []"
    by simp
  have w1: "original_absent_or_point (hd (waypoints_or_self ?c))"
    by (simp add: original_absent_or_point_def pt_def)
  have w2: "original_absent_or_point (last (waypoints_or_self ?c))"
    by (simp add: original_absent_or_point_def pt_def)
  have h2: "\<forall>sp cp b p. getElementLineIntersection example_this sp cp b = Some p
              \<longrightarrow> original p = Absent"
    by (auto simp: example_this_def split: if_splits)
  have h3: "\<forall>sp cp b p. getElementLineIntersection ?resized sp cp b = Some p
              \<longrightarrow> original p = Absent"
    by (auto simp: example_this_def pt_def split: if_splits)
  show ?thesis
    using anchor_preservation [OF h1 w1 w2 h2 h3, where src = None and tgt = None]
    by (simp add: example_this_def pt_def getCroppedWaypoints_def getDockingPoint_def
        getIntersection_def dockingToPoint_def assign_def assign_property_def read_def own_def
        Let_def js_index_def js_or_def js_slice_def original_absent_or_point_def)
qed

subsection \<open>Fallback to the raw waypoint\<close>

lemma fallback_end:
  "cropped_end p p = Waypoint (wp_x p) (wp_y p) (case original p of Absent \<Rightarrow> Value p | v \<Rightarrow> v)"
  by (cases "original p") (simp_all add: assign_property_simps own_read_or)

lemma intersect_no_boundary:
  "intersect crossing None connectionPath preferFirst = None"
  "intersect crossing (Some []) connectionPath preferFirst = None"
  by (simp_all add: intersect_def)

text \<open>
  Claim C6. Fallback law, for a non-empty waypoint sequence and the intersection
  primitive of the specification: when the shape's path is absent or empty, or the
  primitive finds no crossing, the \<open>actual\<close> of \<^verbatim>\<open>getDockingPoint\<close> is the raw
  waypoint at the docking index; \<^verbatim>\<open>getCroppedWaypoints\<close> returns a list, no error, and
  the endpoint of that list on such a side has exactly the coordinates of the raw
  waypoint. Its \<^verbatim>\<open>original\<close> is the raw waypoint's own \<^verbatim>\<open>original\<close> property,
  whatever its value, so that the endpoint is equal to the raw waypoint, and the raw
  waypoint itself when that has no such property.
\<close>

theorem fallback_law:
  fixes this :: "('s, 'seg list option, 'cp) collaborators"
  assumes ne: "waypoints_or_self c \<noteq> []"
    and prim: "getElementLineIntersection this = intersect crossing"
  shows "(getShapePath this shape = None \<or> getShapePath this shape = Some []
            \<or> getIntersection this shape (waypoints_or_self c) dockStart = None \<longrightarrow>
            actual (getDockingPoint this (waypoints_or_self c) shape dockStart) =
              js_index (waypoints_or_self c)
                (idx (getDockingPoint this (waypoints_or_self c) shape dockStart))
          \<and> actual (getDockingPoint this (waypoints_or_self c) shape dockStart) =
              Some (if dockStart then hd (waypoints_or_self c)
                    else last (waypoints_or_self c)))
       \<and> (\<exists>r. getCroppedWaypoints this c src tgt = Inr r
            \<and> (getShapePath this (js_or src (prop_source c)) = None
                  \<or> getShapePath this (js_or src (prop_source c)) = Some []
                  \<or> getIntersection this (js_or src (prop_source c)) (waypoints_or_self c) True
                      = None
                  \<longrightarrow> hd r = Waypoint (wp_x (hd (waypoints_or_self c)))
                               (wp_y (hd (waypoints_or_self c)))
                               (case original (hd (waypoints_or_self c)) of
                                  Absent \<Rightarrow> Value (hd (waypoints_or_self c)) | v \<Rightarrow> v))
            \<and> (getShapePath this (js_or tgt (prop_target c)) = None
                  \<or> getShapePath this (js_or tgt (prop_target c)) = Some []
                  \<or> getIntersection this (js_or tgt (prop_target c)) (waypoints_or_self c) False
                      = None
                  \<longrightarrow> last r = Waypoint (wp_x (last (waypoints_or_self c)))
                               (wp_y (last (waypoints_or_self c)))
                               (case original (last (waypoints_or_self c)) of
                                  Absent \<Rightarrow> Value (last (waypoints_or_self c)) | v \<Rightarrow> v)))"
proof -
  let ?wps = "waypoints_or_self c"
  let ?source = "js_or src (prop_source c)"
  let ?target = "js_or tgt (prop_target c)"
  have none: "getIntersection this sh ?wps ds = None"
    if "getShapePath this sh = None \<or> getShapePath this sh = Some []
          \<or> getIntersection this sh ?wps ds = None" for sh ds
    using that by (auto simp: getIntersection_def Let_def prim intersect_no_boundary)
  have fb: "actual (getDockingPoint this ?wps sh ds) = Some (if ds then hd ?wps else last ?wps)"
    if "getIntersection this sh ?wps ds = None" for sh ds
    using that ne
    by (simp add: actual_getDockingPoint js_or_simps js_index_first js_index_last)
  have one: "getShapePath this shape = None \<or> getShapePath this shape = Some []
            \<or> getIntersection this shape ?wps dockStart = None \<longrightarrow>
            actual (getDockingPoint this ?wps shape dockStart) =
              js_index ?wps (idx (getDockingPoint this ?wps shape dockStart))
          \<and> actual (getDockingPoint this ?wps shape dockStart) =
              Some (if dockStart then hd ?wps else last ?wps)"
  proof
    assume "getShapePath this shape = None \<or> getShapePath this shape = Some []
            \<or> getIntersection this shape ?wps dockStart = None"
    then have "getIntersection this shape ?wps dockStart = None"
      by (rule none)
    then show "actual (getDockingPoint this ?wps shape dockStart) =
              js_index ?wps (idx (getDockingPoint this ?wps shape dockStart))
          \<and> actual (getDockingPoint this ?wps shape dockStart) =
              Some (if dockStart then hd ?wps else last ?wps)"
      using fb [of shape dockStart] ne
      by (simp add: idx_getDockingPoint js_index_first js_index_last)
  qed
  obtain a where a: "actual (getDockingPoint this ?wps ?source True) = Some a"
    using actual_defined [OF ne] by blast
  obtain b where b: "actual (getDockingPoint this ?wps ?target False) = Some b"
    using actual_defined [OF ne] by blast
  have r: "getCroppedWaypoints this c src tgt =
             Inr (cropped_end (hd ?wps) a # butlast (tl ?wps) @ [cropped_end (last ?wps) b])"
    by (rule getCroppedWaypoints_nonempty [OF ne a b])
  have sa: "a = hd ?wps"
    if "getShapePath this ?source = None \<or> getShapePath this ?source = Some []
          \<or> getIntersection this ?source ?wps True = None"
    using fb [OF none [OF that]] a by simp
  have tb: "b = last ?wps"
    if "getShapePath this ?target = None \<or> getShapePath this ?target = Some []
          \<or> getIntersection this ?target ?wps False = None"
    using fb [OF none [OF that]] b by simp
  have two: "\<exists>r. getCroppedWaypoints this c src tgt = Inr r
            \<and> (getShapePath this ?source = None \<or> getShapePath this ?source = Some []
                  \<or> getIntersection this ?source ?wps True = None
                  \<longrightarrow> hd r = Waypoint (wp_x (hd ?wps)) (wp_y (hd ?wps))
                               (case original (hd ?wps) of Absent \<Rightarrow> Value (hd ?wps) | v \<Rightarrow> v))
            \<and> (getShapePath this ?target = None \<or> getShapePath this ?target = Some []
                  \<or> getIntersection this ?target ?wps False = None
                  \<longrightarrow> last r = Waypoint (wp_x (last ?wps)) (wp_y (last ?wps))
                               (case original (last ?wps) of
                                  Absent \<Rightarrow> Value (last ?wps) | v \<Rightarrow> v))"
    unfolding r using sa tb fallback_end [of "hd ?wps"] fallback_end [of "last ?wps"]
    by auto
  from one two show ?thesis by (rule conjI)
qed

theorem fallback_law_witness:
  "waypoints_or_self (Connection (Some (1::nat)) (Some 2)
       [pt 50 50, Waypoint (Value 250) (Value 50) Undefined]) \<noteq> []
   \<and> getElementLineIntersection example_boundary_this =
       intersect (\<lambda>segments connectionPath preferFirst. Some (pt 100 50))
   \<and> getShapePath example_boundary_this (Some 2) = Some []
   \<and> getShapePath example_boundary_this None = None
   \<and> actual (getDockingPoint example_boundary_this
       [pt 50 50, Waypoint (Value 250) (Value 50) Undefined] None False) =
       Some (Waypoint (Value 250) (Value 50) Undefined)
   \<and> getCroppedWaypoints example_boundary_this (Connection (Some 1) (Some 2)
       [pt 50 50, Waypoint (Value 250) (Value 50) Undefined]) None None =
       Inr [Waypoint (Value 100) (Value 50) (Value (pt 50 50)),
            Waypoint (Value 250) (Value 50) Undefined]
   \<and> getCroppedWaypoints example_boundary_this (Waypoints [pt 50 50, pt 250 50]) None None =
       Inr [Waypoint (Value 50) (Value 50) (Value (pt 50 50)),
            Waypoint (Value 250) (Value 50) (Value (pt 250 50))]"
proof -
  have h: "waypoints_or_self (Connection (Some (1::nat)) (Some 2)
       [pt 50 50, Waypoint (Value 250) (Value 50) Undefined]) \<noteq> []"
    by simp
  have p: "getElementLineIntersection example_boundary_this =
       intersect (\<lambda>segments connectionPath preferFirst. Some (pt 100 50))"
    by (simp add: example_boundary_this_def)
  show ?thesis
    using fallback_law [OF h p, where shape = None and dockStart = False
        and src = None and tgt = None]
    by (simp add: example_boundary_this_def intersect_def pt_def getCroppedWaypoints_def
        getDockingPoint_def getIntersection_def dockingToPoint_def assign_def
        assign_property_def read_def own_def Let_def js_index_def js_or_def js_slice_def)
qed

subsection \<open>Input outside the contract\<close>

text \<open>
  Claim C7 says that a waypoint sequence with fewer than two waypoints, or missing
  endpoint shapes, make the two operations signal an explicit error. The code validates
  nothing: with one waypoint and no shapes at all, \<^verbatim>\<open>getCroppedWaypoints\<close> returns a
  list and \<^verbatim>\<open>getDockingPoint\<close> a descriptor, also for the empty sequence.
\<close>

theorem invalid_input_counterexample:
  "getCroppedWaypoints example_this (Waypoints [pt 50 50]) None None =
     Inr [Waypoint (Value 50) (Value 50) (Value (pt 50 50)),
          Waypoint (Value 50) (Value 50) (Value (pt 50 50))]
   \<and> getDockingPoint example_this [pt 50 50] None True =
       \<lparr> point = Some (pt 50 50), actual = Some (pt 50 50), idx = 0 \<rparr>
   \<and> getDockingPoint example_this [] None False =
       \<lparr> point = None, actual = None, idx = - 1 \<rparr>"
  by (simp add: example_this_def pt_def getCroppedWaypoints_def getDockingPoint_def
      getIntersection_def dockingToPoint_def assign_def assign_property_def read_def own_def
      Let_def js_index_def js_or_def js_slice_def)

text \<open>
  Claim C7 as amended. For a waypoint sequence with fewer than two waypoints, or with
  endpoint shapes that are missing and cannot be resolved from the connector, the two
  operations check nothing and raise no error of their own. As far as the graphics
  factory and the intersection primitive return:
  \<^item> with a single waypoint that is a point object, \<^verbatim>\<open>getDockingPoint\<close> returns the
    descriptor with index \<open>0\<close> and that waypoint as point, and
    \<^verbatim>\<open>getCroppedWaypoints\<close> returns a list of two points;
  \<^item> a missing shape is passed to the graphics factory as it is, and for a bare sequence
    of at least two point objects and no shapes \<^verbatim>\<open>getCroppedWaypoints\<close> returns a
    list;
  \<^item> with no waypoint at all, \<^verbatim>\<open>getDockingPoint\<close> returns a descriptor whose point is
    \<^verbatim>\<open>undefined\<close>, and \<^verbatim>\<open>getCroppedWaypoints\<close> fails with the \<^verbatim>\<open>TypeError\<close> of
    reading \<^verbatim>\<open>original\<close> from that point.
\<close>

theorem no_input_validation:
  fixes this :: "('s, 'sp, 'cp) collaborators"
  shows "getDockingPoint this [w] shape dockStart =
            \<lparr> point = Some w, actual = js_or (getIntersection this shape [w] dockStart) (Some w),
              idx = 0 \<rparr>
       \<and> (waypoints_or_self c = [w] \<longrightarrow>
            (\<exists>s t. getCroppedWaypoints this c src tgt = Inr [s, t]))
       \<and> getIntersection this None wps dockStart =
            getElementLineIntersection this (getShapePath this None) (getConnectionPath this wps)
              dockStart
       \<and> (2 \<le> length wps \<longrightarrow>
            (\<exists>r. getCroppedWaypoints this (Waypoints wps) None None = Inr r
               \<and> actual (getDockingPoint this wps None True) =
                   js_or (getIntersection this None wps True) (Some (hd wps))
               \<and> actual (getDockingPoint this wps None False) =
                   js_or (getIntersection this None wps False) (Some (last wps))))
       \<and> getDockingPoint this [] shape dockStart =
            \<lparr> point = None, actual = getIntersection this shape [] dockStart,
              idx = (if dockStart then 0 else - 1) \<rparr>
       \<and> (waypoints_or_self c = [] \<longrightarrow> getCroppedWaypoints this c src tgt = Inl TypeError)"
proof -
  have single: "getDockingPoint this [w] shape dockStart =
            \<lparr> point = Some w, actual = js_or (getIntersection this shape [w] dockStart) (Some w),
              idx = 0 \<rparr>"
    by (simp add: getDockingPoint_def Let_def js_index_def)
  have two: "\<exists>s t. getCroppedWaypoints this c src tgt = Inr [s, t]"
    if one: "waypoints_or_self c = [w]"
  proof -
    from one have ne: "waypoints_or_self c \<noteq> []" by simp
    obtain a where a: "actual (getDockingPoint this (waypoints_or_self c)
        (js_or src (prop_source c)) True) = Some a"
      using actual_defined [OF ne] by blast
    obtain b where b: "actual (getDockingPoint this (waypoints_or_self c)
        (js_or tgt (prop_target c)) False) = Some b"
      using actual_defined [OF ne] by blast
    show ?thesis
      using getCroppedWaypoints_nonempty [OF ne a b] by (simp add: one)
  qed
  have passed: "getIntersection this None wps dockStart =
            getElementLineIntersection this (getShapePath this None) (getConnectionPath this wps)
              dockStart"
    by (simp add: getIntersection_def Let_def)
  have bare: "\<exists>r. getCroppedWaypoints this (Waypoints wps) None None = Inr r
               \<and> actual (getDockingPoint this wps None True) =
                   js_or (getIntersection this None wps True) (Some (hd wps))
               \<and> actual (getDockingPoint this wps None False) =
                   js_or (getIntersection this None wps False) (Some (last wps))"
    if "2 \<le> length wps"
  proof -
    from that have ne: "waypoints_or_self (Waypoints wps :: 's connectionOrWaypoints) \<noteq> []"
      by auto
    obtain a where a: "actual (getDockingPoint this
        (waypoints_or_self (Waypoints wps :: 's connectionOrWaypoints))
        (js_or None (prop_source (Waypoints wps))) True) = Some a"
      using actual_defined [OF ne] by blast
    obtain b where b: "actual (getDockingPoint this
        (waypoints_or_self (Waypoints wps :: 's connectionOrWaypoints))
        (js_or None (prop_target (Waypoints wps))) False) = Some b"
      using actual_defined [OF ne] by blast
    from ne have "wps \<noteq> []" by simp
    then show ?thesis
      using getCroppedWaypoints_nonempty [OF ne a b]
      by (simp add: actual_getDockingPoint js_index_first js_index_last)
  qed
  have none: "getDockingPoint this [] shape dockStart =
            \<lparr> point = None, actual = getIntersection this shape [] dockStart,
              idx = (if dockStart then 0 else - 1) \<rparr>"
    by (rule getDockingPoint_empty)
  have fails: "waypoints_or_self c = [] \<longrightarrow> getCroppedWaypoints this c src tgt = Inl TypeError"
    by (simp add: getCroppedWaypoints_empty)
  from single two passed bare none fails show ?thesis by blast
qed

theorem no_input_validation_witness:
  "waypoints_or_self (Connection None None [pt 50 50] :: nat connectionOrWaypoints) = [pt 50 50]
   \<and> getCroppedWaypoints example_this (Connection None None [pt 50 50]) None None =
       Inr [Waypoint (Value 50) (Value 50) (Value (pt 50 50)),
            Waypoint (Value 50) (Value 50) (Value (pt 50 50))]
   \<and> 2 \<le> length [pt 50 50, pt 250 50]
   \<and> getCroppedWaypoints example_this (Waypoints [pt 50 50, pt 250 50]) None None =
       Inr [Waypoint (Value 50) (Value 50) (Value (pt 50 50)),
            Waypoint (Value 250) (Value 50) (Value (pt 250 50))]
   \<and> waypoints_or_self (Waypoints [] :: nat connectionOrWaypoints) = []
   \<and> getCroppedWaypoints example_this (Waypoints []) (Some 1) (Some 2) = Inl TypeError"
  using no_input_validation [where this = example_this and w = "pt 50 50"
      and c = "Connection None None [pt 50 50]" and src = None and tgt = None
      and wps = "[pt 50 50, pt 250 50]" and shape = None and dockStart = True]
    no_input_validation [where this = example_this and c = "Waypoints []"
      and src = "Some 1" and tgt = "Some 2"]
  by (simp add: example_this_def pt_def getCroppedWaypoints_def getDockingPoint_def
      getIntersection_def dockingToPoint_def assign_def assign_property_def read_def own_def
      Let_def js_index_def js_or_def js_slice_def)

text \<open>
  Claim C10 says that both points returned for a one-element waypoint list carry as
  \<^verbatim>\<open>original\<close> that waypoint, or its \<^verbatim>\<open>original\<close> if present. It fails for a
  waypoint with an own property \<^verbatim>\<open>original\<close> whose value is \<^verbatim>\<open>undefined\<close>: the
  point of the source, which has a crossing, carries the waypoint, and the point of the
  target, which has none, carries \<^verbatim>\<open>undefined\<close>.
\<close>

theorem single_waypoint_counterexample:
  "getCroppedWaypoints example_this
       (Connection (Some 1) (Some 3) [Waypoint (Value 50) (Value 50) Undefined]) None None =
     Inr [Waypoint (Value 100) (Value 50) (Value (Waypoint (Value 50) (Value 50) Undefined)),
          Waypoint (Value 50) (Value 50) Undefined]"
  by (simp add: example_this_def getCroppedWaypoints_def getDockingPoint_def
      getIntersection_def dockingToPoint_def assign_def assign_property_def read_def own_def
      Let_def js_index_def js_or_def js_slice_def)

text \<open>
  Claim C10 as amended. For a waypoint list with the single element \<open>w\<close> no error is
  raised: both dockings select index \<open>0\<close>, the interior slice is empty, and the result
  has two points. The first has the coordinates of the source's actual point, the second
  those of the target's actual point, the actual point being \<open>w\<close> itself when no
  intersection is found. When the \<^verbatim>\<open>original\<close> property of \<open>w\<close> is absent or a point
  object and the intersection primitive returns bare points, both carry as
  \<^verbatim>\<open>original\<close> the \<^verbatim>\<open>original\<close> of \<open>w\<close> if present and \<open>w\<close> otherwise.
\<close>

theorem single_waypoint:
  fixes this :: "('s, 'sp, 'cp) collaborators"
  assumes one: "waypoints_or_self c = [w]"
  shows "idx (getDockingPoint this [w] (js_or src (prop_source c)) True) = 0
       \<and> idx (getDockingPoint this [w] (js_or tgt (prop_target c)) False) = 0
       \<and> js_slice [w] (idx (getDockingPoint this [w] (js_or src (prop_source c)) True) + 1)
            (idx (getDockingPoint this [w] (js_or tgt (prop_target c)) False)) = []
       \<and> (\<exists>s t a b.
            getCroppedWaypoints this c src tgt = Inr [s, t]
          \<and> actual (getDockingPoint this [w] (js_or src (prop_source c)) True) = Some a
          \<and> actual (getDockingPoint this [w] (js_or tgt (prop_target c)) False) = Some b
          \<and> wp_x s = wp_x a \<and> wp_y s = wp_y a
          \<and> wp_x t = wp_x b \<and> wp_y t = wp_y b
          \<and> (getIntersection this (js_or src (prop_source c)) [w] True = None \<longrightarrow> a = w)
          \<and> (getIntersection this (js_or tgt (prop_target c)) [w] False = None \<longrightarrow> b = w)
          \<and> (original_absent_or_point w
               \<and> (\<forall>sp cp b p. getElementLineIntersection this sp cp b = Some p \<longrightarrow>
                     original p = Absent) \<longrightarrow>
                 original s = (case original w of Value v \<Rightarrow> Value v | _ \<Rightarrow> Value w)
               \<and> original t = (case original w of Value v \<Rightarrow> Value v | _ \<Rightarrow> Value w)))"
proof -
  let ?source = "js_or src (prop_source c)"
  let ?target = "js_or tgt (prop_target c)"
  have ne: "waypoints_or_self c \<noteq> []" by (simp add: one)
  have i: "idx (getDockingPoint this [w] ?source True) = 0"
    "idx (getDockingPoint this [w] ?target False) = 0"
    by (simp_all add: idx_getDockingPoint)
  have sl: "js_slice [w] (idx (getDockingPoint this [w] ?source True) + 1)
            (idx (getDockingPoint this [w] ?target False)) = []"
    unfolding i by (simp add: js_slice_def Let_def)
  obtain a where a: "actual (getDockingPoint this [w] ?source True) = Some a"
    using actual_defined [of "[w]"] by blast
  obtain b where b: "actual (getDockingPoint this [w] ?target False) = Some b"
    using actual_defined [of "[w]"] by blast
  have r: "getCroppedWaypoints this c src tgt = Inr [cropped_end w a, cropped_end w b]"
    using getCroppedWaypoints_nonempty [OF ne, of this src a tgt b] a b by (simp add: one)
  have fa: "getIntersection this ?source [w] True = None \<longrightarrow> a = w"
    using a by (auto simp: actual_getDockingPoint js_or_simps js_index_def)
  have fb: "getIntersection this ?target [w] False = None \<longrightarrow> b = w"
    using b by (auto simp: actual_getDockingPoint js_or_simps js_index_def)
  have orig: "original (cropped_end w a) = (case original w of Value v \<Rightarrow> Value v | _ \<Rightarrow> Value w)
            \<and> original (cropped_end w b) = (case original w of Value v \<Rightarrow> Value v | _ \<Rightarrow> Value w)"
    if wf: "original_absent_or_point w"
      and bare: "\<forall>sp cp b p. getElementLineIntersection this sp cp b = Some p \<longrightarrow>
                     original p = Absent"
  proof -
    have a': "a = w \<or> original a = Absent"
      using actual_cases [of "[w]" this ?source True a] a bare
      by (auto simp: getIntersection_def Let_def)
    have b': "b = w \<or> original b = Absent"
      using actual_cases [of "[w]" this ?target False b] b bare
      by (auto simp: getIntersection_def Let_def)
    show ?thesis
      using anchor_kept [OF wf a'] anchor_kept [OF wf b'] by simp
  qed
  have ex: "\<exists>s t a b.
            getCroppedWaypoints this c src tgt = Inr [s, t]
          \<and> actual (getDockingPoint this [w] ?source True) = Some a
          \<and> actual (getDockingPoint this [w] ?target False) = Some b
          \<and> wp_x s = wp_x a \<and> wp_y s = wp_y a
          \<and> wp_x t = wp_x b \<and> wp_y t = wp_y b
          \<and> (getIntersection this ?source [w] True = None \<longrightarrow> a = w)
          \<and> (getIntersection this ?target [w] False = None \<longrightarrow> b = w)
          \<and> (original_absent_or_point w
               \<and> (\<forall>sp cp b p. getElementLineIntersection this sp cp b = Some p \<longrightarrow>
                     original p = Absent) \<longrightarrow>
                 original s = (case original w of Value v \<Rightarrow> Value v | _ \<Rightarrow> Value w)
               \<and> original t = (case original w of Value v \<Rightarrow> Value v | _ \<Rightarrow> Value w))"
    apply (rule exI [of _ "cropped_end w a"])
    apply (rule exI [of _ "cropped_end w b"])
    apply (rule exI [of _ a])
    apply (rule exI [of _ b])
    using r a b fa fb orig by simp
  from i sl ex show ?thesis by blast
qed

theorem single_waypoint_witness:
  "waypoints_or_self (Connection (Some (1::nat)) (Some 3) [pt 50 50]) = [pt 50 50]
   \<and> original_absent_or_point (pt 50 50)
   \<and> getCroppedWaypoints example_this (Connection (Some 1) (Some 3) [pt 50 50]) None None =
       Inr [Waypoint (Value 100) (Value 50) (Value (pt 50 50)),
            Waypoint (Value 50) (Value 50) (Value (pt 50 50))]"
proof -
  have h1: "waypoints_or_self (Connection (Some (1::nat)) (Some 3) [pt 50 50]) = [pt 50 50]"
    by simp
  have h2: "\<forall>sp cp b p. getElementLineIntersection example_this sp cp b = Some p
              \<longrightarrow> original p = Absent"
    by (auto simp: example_this_def split: if_splits)
  have h3: "original_absent_or_point (pt 50 50)"
    by (simp add: original_absent_or_point_def pt_def)
  show ?thesis
    using single_waypoint [OF h1, where this = example_this and src = None and tgt = None] h2 h3
    by (simp add: example_this_def pt_def getCroppedWaypoints_def getDockingPoint_def
        getIntersection_def dockingToPoint_def assign_def assign_property_def read_def own_def
        Let_def js_index_def js_or_def js_slice_def original_absent_or_point_def)
qed

subsection \<open>Facts about the store\<close>

lemma take_eq_prefix: "take (length xs) ys = xs \<longleftrightarrow> (\<exists>zs. ys = xs @ zs)"
proof
  assume "take (length xs) ys = xs"
  then have "ys = xs @ drop (length xs) ys"
    by (metis append_take_drop_id)
  then show "\<exists>zs. ys = xs @ zs" ..
next
  assume "\<exists>zs. ys = xs @ zs"
  then show "take (length xs) ys = xs" by auto
qed

lemma unchanged_iff:
  "unchanged h h' \<longleftrightarrow>
     (\<exists>os. objects h' = objects h @ os) \<and> (\<exists>as. arrays h' = arrays h @ as)
   \<and> connections h' = connections h"
  by (simp add: unchanged_def take_eq_prefix)

lemma unchanged_refl: "unchanged h h"
  by (simp add: unchanged_def)

lemma unchanged_trans: "unchanged h g \<Longrightarrow> unchanged g k \<Longrightarrow> unchanged h k"
  by (auto simp: unchanged_iff)

lemma unchanged_lookup_objects:
  "unchanged h g \<Longrightarrow> r < length (objects h) \<Longrightarrow> lookup (objects g) r = Some (objects h ! r)"
  by (auto simp: unchanged_iff lookup_def nth_append)

lemma unchanged_lookup_arrays:
  "unchanged h g \<Longrightarrow> lookup (arrays h) a = Some refs \<Longrightarrow> lookup (arrays g) a = Some refs"
  by (auto simp: unchanged_iff lookup_def nth_append split: if_splits)

lemma unchanged_heap_props:
  "unchanged h g \<Longrightarrow> heap_props h c = Some v \<Longrightarrow> heap_props g c = Some v"
  by (cases c) (auto simp: unchanged_iff)

lemma unchanged_length:
  "unchanged h g \<Longrightarrow> length (objects h) \<le> length (objects g)"
  "unchanged h g \<Longrightarrow> length (arrays h) \<le> length (arrays g)"
  by (auto simp: unchanged_iff)

lemma unchanged_alloc_array: "unchanged h (snd (alloc_array h refs))"
  by (simp add: unchanged_iff alloc_array_def)

lemma list_update_beyond_prefix:
  "length xs \<le> i \<Longrightarrow> \<exists>zs'. (xs @ zs)[i := v] = xs @ zs'"
  by (simp add: list_update_append)

lemma unchanged_assign_heap:
  assumes "unchanged h g" and "length (objects h) \<le> target"
  shows "unchanged h (assign_heap g target src)"
proof -
  from assms(1) obtain os where os: "objects g = objects h @ os"
    by (auto simp: unchanged_iff)
  have "\<exists>zs. (objects g)[target := v] = objects h @ zs" for v
    unfolding os using assms(2) by (rule list_update_beyond_prefix)
  with assms(1) show ?thesis
    by (auto simp: unchanged_iff assign_heap_def split: option.splits)
qed

lemma unchanged_unshift:
  assumes "unchanged h g" and "length (arrays h) \<le> arr"
  shows "unchanged h (unshift g arr v)"
proof -
  from assms(1) obtain as where as: "arrays g = arrays h @ as"
    by (auto simp: unchanged_iff)
  have "\<exists>zs. (arrays g)[arr := w] = arrays h @ zs" for w
    unfolding as using assms(2) by (rule list_update_beyond_prefix)
  with assms(1) show ?thesis
    by (auto simp: unchanged_iff unshift_def split: option.splits)
qed

lemma unchanged_push:
  assumes "unchanged h g" and "length (arrays h) \<le> arr"
  shows "unchanged h (push g arr v)"
proof -
  from assms(1) obtain as where as: "arrays g = arrays h @ as"
    by (auto simp: unchanged_iff)
  have "\<exists>zs. (arrays g)[arr := w] = arrays h @ zs" for w
    unfolding as using assms(2) by (rule list_update_beyond_prefix)
  with assms(1) show ?thesis
    by (auto simp: unchanged_iff push_def split: option.splits)
qed

lemma unchanged_getIntersection_heap:
  "unchanged h (snd (getIntersection_heap this h shape waypoints takeFirst))"
  by (simp add: getIntersection_heap_def Let_def alloc_object_def unchanged_iff
      split: option.splits)

lemma unchanged_getDockingPoint_heap:
  "unchanged h (snd (getDockingPoint_heap this h waypoints shape dockStart))"
  using unchanged_getIntersection_heap [of h this shape waypoints dockStart]
  by (cases "getIntersection_heap this h shape waypoints dockStart")
     (simp add: getDockingPoint_heap_def Let_def unchanged_refl split: option.splits)

lemma unchanged_dockingToPoint_heap:
  "unchanged h (snd (dockingToPoint_heap h docking))"
proof -
  have "unchanged h (assign_heap (h \<lparr> objects := objects h @ [ob] \<rparr>) (length (objects h)) src)"
    for ob src
    by (rule unchanged_assign_heap) (simp_all add: unchanged_iff)
  then show ?thesis
    by (simp add: dockingToPoint_heap_def Let_def alloc_object_def unchanged_refl
        split: option.splits)
qed

lemma unchanged_getCroppedWaypoints_heap:
  "unchanged h (snd (getCroppedWaypoints_heap this h c src tgt))"
proof (cases "heap_props h c")
  case None
  then show ?thesis
    by (simp add: getCroppedWaypoints_heap_def unchanged_refl)
next
  case (Some v)
  obtain cs ct wa where v: "v = (cs, ct, wa)"
    by (cases v) auto
  obtain r1 h1 where d1: "getDockingPoint_heap this h wa (js_or src cs) True = (r1, h1)"
    by (cases "getDockingPoint_heap this h wa (js_or src cs) True") auto
  have u1: "unchanged h h1"
    using unchanged_getDockingPoint_heap [of h this wa "js_or src cs" True] d1 by simp
  show ?thesis
  proof (cases r1)
    case (Inl e)
    then show ?thesis
      using Some v d1 u1 by (simp add: getCroppedWaypoints_heap_def Let_def)
  next
    case sd: (Inr sourceDocking)
    obtain r2 h2 where d2: "getDockingPoint_heap this h1 wa (js_or tgt ct) False = (r2, h2)"
      by (cases "getDockingPoint_heap this h1 wa (js_or tgt ct) False") auto
    have u2: "unchanged h h2"
      using unchanged_getDockingPoint_heap [of h1 this wa "js_or tgt ct" False] d2 u1
      by (auto intro: unchanged_trans)
    show ?thesis
    proof (cases r2)
      case (Inl e)
      then show ?thesis
        using Some v d1 sd d2 u2 by (simp add: getCroppedWaypoints_heap_def Let_def)
    next
      case td: (Inr targetDocking)
      show ?thesis
      proof (cases "lookup (arrays h2) wa")
        case None
        then show ?thesis
          using Some v d1 sd d2 td u2 by (simp add: getCroppedWaypoints_heap_def Let_def)
      next
        case refs: (Some refs)
        define sl where "sl = js_slice refs (idx_of sourceDocking + 1) (idx_of targetDocking)"
        define cw where "cw = length (arrays h2)"
        define h3 where "h3 = h2 \<lparr> arrays := arrays h2 @ [sl] \<rparr>"
        have a3: "alloc_array h2 sl = (cw, h3)"
          by (simp add: alloc_array_def cw_def h3_def)
        have u3: "unchanged h h3"
          using unchanged_alloc_array [of h2 sl] a3 u2 by (auto intro: unchanged_trans)
        have cw: "length (arrays h) \<le> cw"
          using u2 by (simp add: cw_def unchanged_length)
        obtain r4 h4 where d4: "dockingToPoint_heap h3 sourceDocking = (r4, h4)"
          by (cases "dockingToPoint_heap h3 sourceDocking") auto
        have u4: "unchanged h h4"
          using unchanged_dockingToPoint_heap [of h3 sourceDocking] d4 u3
          by (auto intro: unchanged_trans)
        show ?thesis
        proof (cases r4)
          case (Inl e)
          then show ?thesis
            using Some v d1 sd d2 td refs a3 d4 u4
            by (simp add: getCroppedWaypoints_heap_def Let_def sl_def)
        next
          case s: (Inr s)
          have u4': "unchanged h (unshift h4 cw s)"
            using u4 cw by (rule unchanged_unshift)
          obtain r5 h5 where d5: "dockingToPoint_heap (unshift h4 cw s) targetDocking = (r5, h5)"
            by (cases "dockingToPoint_heap (unshift h4 cw s) targetDocking") auto
          have u5: "unchanged h h5"
            using unchanged_dockingToPoint_heap [of "unshift h4 cw s" targetDocking] d5 u4'
            by (auto intro: unchanged_trans)
          have u6: "unchanged h (push h5 cw t)" for t
            using u5 cw by (rule unchanged_push)
          show ?thesis
            using Some v d1 sd d2 td refs a3 d4 s d5 u5 u6
            by (cases r5) (simp_all add: getCroppedWaypoints_heap_def Let_def sl_def)
        qed
      qed
    qed
  qed
qed

lemma lookup_append_left: "lookup xs r = Some v \<Longrightarrow> lookup (xs @ ys) r = Some v"
  by (auto simp: lookup_def nth_append split: if_splits)

lemma lookup_append_new: "lookup (xs @ [v]) (length xs) = Some v"
  by (simp add: lookup_def)

lemma dockingToPoint_heap_Some:
  assumes p: "point_ref d = Some p" and pob: "lookup (objects g) p = Some pob"
    and a: "actual_ref d = Some a" and aob: "lookup (objects g) a = Some aob"
  shows "dockingToPoint_heap g d =
           (Inr (length (objects g)), g \<lparr> objects := objects g @ [merged_object pob p aob] \<rparr>)"
proof -
  have "assign_heap (g \<lparr> objects := objects g @ [ob] \<rparr>) (length (objects g)) (Some a) =
          g \<lparr> objects := objects g @
            [\<lparr> prop_x = assign_property (prop_x aob) (prop_x ob),
               prop_y = assign_property (prop_y aob) (prop_y ob),
               prop_original = assign_property (prop_original aob) (prop_original ob) \<rparr>] \<rparr>"
    for ob
    using aob by (simp add: assign_heap_def lookup_append_new lookup_append_left)
  then show ?thesis
    using p pob a by (simp add: dockingToPoint_heap_def alloc_object_def assign_property_simps)
qed

lemma dockingToPoint_heap_undefined:
  "point_ref d = None \<Longrightarrow> dockingToPoint_heap g d = (Inl TypeError, g)"
  by (simp add: dockingToPoint_heap_def)

lemma getCroppedWaypoints_heap_run:
  assumes props: "heap_props g c = Some (cs, ct, wa)"
    and d1: "getDockingPoint_heap this g wa (js_or src cs) True = (Inr sd, h1)"
    and d2: "getDockingPoint_heap this h1 wa (js_or tgt ct) False = (Inr td, h2)"
    and arr: "lookup (arrays h2) wa = Some refs"
    and s: "point_ref sd = Some p0" "lookup (objects h2) p0 = Some pob0"
      "actual_ref sd = Some a0" "lookup (objects h2) a0 = Some aob0"
    and t: "point_ref td = Some pn" "lookup (objects h2) pn = Some pobn"
      "actual_ref td = Some an" "lookup (objects h2) an = Some aobn"
  shows "getCroppedWaypoints_heap this g c src tgt =
           (Inr (length (arrays h2)),
            h2 \<lparr> objects := objects h2 @ [merged_object pob0 p0 aob0, merged_object pobn pn aobn],
                 arrays := arrays h2 @
                   [Some (length (objects h2)) # js_slice refs (idx_of sd + 1) (idx_of td)
                      @ [Some (Suc (length (objects h2)))]] \<rparr>)"
proof -
  define sl where "sl = js_slice refs (idx_of sd + 1) (idx_of td)"
  define h3 where "h3 = h2 \<lparr> arrays := arrays h2 @ [sl] \<rparr>"
  define h4 where "h4 = h3 \<lparr> objects := objects h3 @ [merged_object pob0 p0 aob0] \<rparr>"
  define h4' where "h4' = h4 \<lparr> arrays := arrays h2 @ [Some (length (objects h2)) # sl] \<rparr>"
  define h5 where "h5 = h4' \<lparr> objects := objects h4' @ [merged_object pobn pn aobn] \<rparr>"
  have a3: "alloc_array h2 sl = (length (arrays h2), h3)"
    by (simp add: alloc_array_def h3_def)
  have d4: "dockingToPoint_heap h3 sd = (Inr (length (objects h2)), h4)"
    using dockingToPoint_heap_Some [of sd p0 h3 pob0 a0 aob0] s
    by (simp add: h3_def h4_def)
  have us: "unshift h4 (length (arrays h2)) (length (objects h2)) = h4'"
    by (simp add: unshift_def h4_def h3_def h4'_def lookup_append_new)
  have o4: "objects h4' = objects h2 @ [merged_object pob0 p0 aob0]"
    by (simp add: h4'_def h4_def h3_def)
  have d5: "dockingToPoint_heap h4' td = (Inr (Suc (length (objects h2))), h5)"
    using dockingToPoint_heap_Some [of td pn h4' pobn an aobn] t
    by (simp add: o4 h5_def lookup_append_left)
  have pu: "push h5 (length (arrays h2)) (Suc (length (objects h2))) =
              h2 \<lparr> objects := objects h2 @ [merged_object pob0 p0 aob0, merged_object pobn pn aobn],
                   arrays := arrays h2 @
                     [Some (length (objects h2)) # sl @ [Some (Suc (length (objects h2)))]] \<rparr>"
    by (simp add: push_def h5_def h4'_def h4_def h3_def lookup_append_new)
  show ?thesis
    unfolding getCroppedWaypoints_heap_def
    by (simp add: props d1 d2 arr Let_def a3 [unfolded sl_def] d4 us d5 pu [unfolded sl_def])
qed

lemma js_element_ends:
  "refs \<noteq> [] \<Longrightarrow> js_element refs 0 = hd refs"
  "refs \<noteq> [] \<Longrightarrow> js_element refs (int (length refs) - 1) = last refs"
  by (simp_all add: js_element_def js_index_first js_index_last)

lemma js_element_empty: "js_element [] i = None"
  by (auto simp: js_element_def js_index_def)

lemma deref_simps:
  "deref objs None = None" "deref objs (Some r) = lookup objs r"
  by (simp_all add: deref_def)

lemma getDockingPoint_heap_eq:
  assumes arr: "lookup (arrays g) wa = Some refs"
  shows "getDockingPoint_heap this g wa shape dockStart =
     (case heap_getElementLineIntersection this (heap_getShapePath this shape)
             (heap_getConnectionPath this g wa) dockStart of
        None \<Rightarrow>
          (Inr \<lparr> point_ref = js_element refs (if dockStart then 0 else int (length refs) - 1),
                 actual_ref = js_element refs (if dockStart then 0 else int (length refs) - 1),
                 idx_of = (if dockStart then 0 else int (length refs) - 1) \<rparr>, g)
      | Some ob \<Rightarrow>
          (Inr \<lparr> point_ref = js_element refs (if dockStart then 0 else int (length refs) - 1),
                 actual_ref = Some (length (objects g)),
                 idx_of = (if dockStart then 0 else int (length refs) - 1) \<rparr>,
           g \<lparr> objects := objects g @ [ob] \<rparr>))"
  by (simp add: getDockingPoint_heap_def getIntersection_heap_def arr Let_def alloc_object_def
      js_or_simps split: option.splits)

lemma getDockingPoint_heap_repeat:
  assumes stable: "\<forall>g. unchanged h g \<longrightarrow>
      heap_getConnectionPath this g wa = heap_getConnectionPath this h wa"
  shows "returned_descriptor
           (getDockingPoint_heap this (snd (getDockingPoint_heap this h wa shape dockStart))
              wa shape dockStart) =
         returned_descriptor (getDockingPoint_heap this h wa shape dockStart)"
proof (cases "lookup (arrays h) wa")
  case None
  then show ?thesis
    by (simp add: getDockingPoint_heap_def)
next
  case (Some refs)
  let ?I = "heap_getElementLineIntersection this (heap_getShapePath this shape)
              (heap_getConnectionPath this h wa) dockStart"
  show ?thesis
  proof (cases ?I)
    case None
    then show ?thesis
      by (simp add: getDockingPoint_heap_eq [OF Some])
  next
    case I: (Some ob)
    let ?h1 = "h \<lparr> objects := objects h @ [ob] \<rparr>"
    have u: "unchanged h ?h1"
      by (simp add: unchanged_iff)
    have arr1: "lookup (arrays ?h1) wa = Some refs"
      using Some by simp
    have path1: "heap_getConnectionPath this ?h1 wa = heap_getConnectionPath this h wa"
      using stable u by blast
    show ?thesis
      by (simp add: getDockingPoint_heap_eq [OF Some] I getDockingPoint_heap_eq [OF arr1]
          path1 returned_descriptor_def deref_simps lookup_append_new
          lookup_append_new [of "objects h @ [ob]", simplified])
  qed
qed

text \<open>
  What a call of \<^verbatim>\<open>getCroppedWaypoints\<close> returns, in any store that extends \<open>h\<close>,
  in terms of \<open>h\<close> alone: a \<^verbatim>\<open>TypeError\<close> when the first or the last element of
  the array is \<^verbatim>\<open>undefined\<close>, in particular when the array is empty.
\<close>

lemma getCroppedWaypoints_heap_output:
  assumes u: "unchanged h g"
    and props: "heap_props h c = Some (cs, ct, wa)"
    and arr: "lookup (arrays h) wa = Some refs"
    and valid: "list_all (\<lambda>v. case v of None \<Rightarrow> True | Some r \<Rightarrow> r < length (objects h)) refs"
    and stable: "\<forall>g. unchanged h g \<longrightarrow>
      heap_getConnectionPath this g wa = heap_getConnectionPath this h wa"
  shows "returned_waypoints (getCroppedWaypoints_heap this g c src tgt) =
     (case js_element refs 0 of
        None \<Rightarrow> Inl TypeError
      | Some p0 \<Rightarrow>
          (case js_element refs (int (length refs) - 1) of
             None \<Rightarrow> Inl TypeError
           | Some pn \<Rightarrow>
               Inr (Some (merged_object (objects h ! p0) p0
                      (case heap_getElementLineIntersection this
                              (heap_getShapePath this (js_or src cs))
                              (heap_getConnectionPath this h wa) True of
                         None \<Rightarrow> objects h ! p0 | Some ob \<Rightarrow> ob))
                   # map (deref (objects h)) (butlast (tl refs))
                   @ [Some (merged_object (objects h ! pn) pn
                        (case heap_getElementLineIntersection this
                                (heap_getShapePath this (js_or tgt ct))
                                (heap_getConnectionPath this h wa) False of
                           None \<Rightarrow> objects h ! pn | Some ob \<Rightarrow> ob))])))"
proof -
  let ?Is = "heap_getElementLineIntersection this (heap_getShapePath this (js_or src cs))
               (heap_getConnectionPath this h wa) True"
  let ?It = "heap_getElementLineIntersection this (heap_getShapePath this (js_or tgt ct))
               (heap_getConnectionPath this h wa) False"
  define h1 where "h1 = (case ?Is of None \<Rightarrow> g | Some ob \<Rightarrow> g \<lparr> objects := objects g @ [ob] \<rparr>)"
  define sd where "sd = \<lparr> point_ref = js_element refs 0,
       actual_ref = (case ?Is of None \<Rightarrow> js_element refs 0 | Some ob \<Rightarrow> Some (length (objects g))),
       idx_of = 0 \<rparr>"
  define h2 where "h2 = (case ?It of None \<Rightarrow> h1 | Some ob \<Rightarrow> h1 \<lparr> objects := objects h1 @ [ob] \<rparr>)"
  define td where "td = \<lparr> point_ref = js_element refs (int (length refs) - 1),
       actual_ref = (case ?It of None \<Rightarrow> js_element refs (int (length refs) - 1)
                     | Some ob \<Rightarrow> Some (length (objects h1))),
       idx_of = int (length refs) - 1 \<rparr>"
  have props_g: "heap_props g c = Some (cs, ct, wa)"
    using u props by (rule unchanged_heap_props)
  have arr_g: "lookup (arrays g) wa = Some refs"
    using u arr by (rule unchanged_lookup_arrays)
  have path_g: "heap_getConnectionPath this g wa = heap_getConnectionPath this h wa"
    using stable u by blast
  have d1: "getDockingPoint_heap this g wa (js_or src cs) True = (Inr sd, h1)"
    by (simp add: getDockingPoint_heap_eq [OF arr_g] path_g sd_def h1_def split: option.splits)
  have g1: "unchanged g h1"
    by (simp add: h1_def unchanged_iff split: option.splits)
  have u1: "unchanged h h1"
    using u g1 by (rule unchanged_trans)
  have arr_1: "lookup (arrays h1) wa = Some refs"
    using u1 arr by (rule unchanged_lookup_arrays)
  have path_1: "heap_getConnectionPath this h1 wa = heap_getConnectionPath this h wa"
    using stable u1 by blast
  have d2: "getDockingPoint_heap this h1 wa (js_or tgt ct) False = (Inr td, h2)"
    by (simp add: getDockingPoint_heap_eq [OF arr_1] path_1 td_def h2_def split: option.splits)
  have g2: "unchanged h1 h2"
    by (simp add: h2_def unchanged_iff split: option.splits)
  have u2: "unchanged h h2"
    using u1 g2 by (rule unchanged_trans)
  have arr_2: "lookup (arrays h2) wa = Some refs"
    using u2 arr by (rule unchanged_lookup_arrays)
  have in_store: "r < length (objects h)" if "Some r \<in> set refs" for r
    using valid that by (auto simp: list_all_iff)
  show ?thesis
  proof (cases "js_element refs 0")
    case None
    then have "point_ref sd = None"
      by (simp add: sd_def)
    then show ?thesis
      using None
      by (simp add: getCroppedWaypoints_heap_def props_g d1 d2 arr_2 Let_def alloc_array_def
          dockingToPoint_heap_undefined returned_waypoints_def)
  next
    case p0: (Some p0)
    then have ne: "refs \<noteq> []"
      by (auto simp: js_element_empty)
    from p0 ne have hd0: "hd refs = Some p0"
      by (simp add: js_element_ends)
    then have v0: "p0 < length (objects h)"
      using ne in_store by (metis hd_in_set)
    have psd: "point_ref sd = Some p0"
      by (simp add: sd_def p0)
    have a0: "\<exists>a. actual_ref sd = Some a \<and>
        lookup (objects k) a = Some (case ?Is of None \<Rightarrow> objects h ! p0 | Some ob \<Rightarrow> ob)"
      if k: "unchanged h1 k" for k
    proof (cases ?Is)
      case None
      have "unchanged h k"
        using u1 k by (rule unchanged_trans)
      then have "lookup (objects k) p0 = Some (objects h ! p0)"
        using v0 by (rule unchanged_lookup_objects)
      with None show ?thesis
        by (simp add: sd_def p0)
    next
      case (Some ob)
      then have "length (objects g) < length (objects h1)" "objects h1 ! length (objects g) = ob"
        by (simp_all add: h1_def)
      with k have "lookup (objects k) (length (objects g)) = Some ob"
        by (simp add: unchanged_lookup_objects)
      then show ?thesis
        using Some by (simp add: sd_def)
    qed
    show ?thesis
    proof (cases "js_element refs (int (length refs) - 1)")
      case None
      then have ptd: "point_ref td = None"
        by (simp add: td_def)
      define sl where "sl = js_slice refs (idx_of sd + 1) (idx_of td)"
      define h3 where "h3 = h2 \<lparr> arrays := arrays h2 @ [sl] \<rparr>"
      have a3: "alloc_array h2 sl = (length (arrays h2), h3)"
        by (simp add: alloc_array_def h3_def)
      have k3: "unchanged h1 h3"
        using g2 by (auto simp: unchanged_iff h3_def)
      have u3: "unchanged h h3"
        using u1 k3 by (rule unchanged_trans)
      from a0 [OF k3] obtain a where a: "actual_ref sd = Some a"
        "lookup (objects h3) a = Some (case ?Is of None \<Rightarrow> objects h ! p0 | Some ob \<Rightarrow> ob)"
        by blast
      have pob0: "lookup (objects h3) p0 = Some (objects h ! p0)"
        using u3 v0 by (rule unchanged_lookup_objects)
      note d4 = dockingToPoint_heap_Some [OF psd pob0 a]
      show ?thesis
        using None p0
        by (simp add: getCroppedWaypoints_heap_def props_g d1 d2 arr_2 Let_def
            a3 [unfolded sl_def] d4 dockingToPoint_heap_undefined [OF ptd]
            returned_waypoints_def)
    next
      case pn: (Some pn)
      from pn ne have lastn: "last refs = Some pn"
        by (simp add: js_element_ends)
      then have vn: "pn < length (objects h)"
        using ne in_store by (metis last_in_set)
      have ptd: "point_ref td = Some pn"
        by (simp add: td_def pn)
      have pob0: "lookup (objects h2) p0 = Some (objects h ! p0)"
        using u2 v0 by (rule unchanged_lookup_objects)
      have pobn: "lookup (objects h2) pn = Some (objects h ! pn)"
        using u2 vn by (rule unchanged_lookup_objects)
      from a0 [OF g2] obtain a where a: "actual_ref sd = Some a"
        "lookup (objects h2) a = Some (case ?Is of None \<Rightarrow> objects h ! p0 | Some ob \<Rightarrow> ob)"
        by blast
      have an: "\<exists>a. actual_ref td = Some a \<and>
          lookup (objects h2) a = Some (case ?It of None \<Rightarrow> objects h ! pn | Some ob \<Rightarrow> ob)"
      proof (cases ?It)
        case None
        then show ?thesis
          using pobn by (simp add: td_def pn)
      next
        case (Some ob)
        then show ?thesis
          by (simp add: td_def h2_def lookup_append_new)
      qed
      then obtain b where b: "actual_ref td = Some b"
        "lookup (objects h2) b = Some (case ?It of None \<Rightarrow> objects h ! pn | Some ob \<Rightarrow> ob)"
        by blast
      have sl: "js_slice refs (idx_of sd + 1) (idx_of td) = butlast (tl refs)"
        by (simp add: sd_def td_def js_slice_interior)
      have inner: "deref (objects h2 @ os) v = deref (objects h) v"
        if "v \<in> set (butlast (tl refs))" for v os
      proof (cases v)
        case None
        then show ?thesis by (simp add: deref_simps)
      next
        case (Some r)
        from that have "v \<in> set refs"
          by (metis in_set_butlastD list.set_sel(2) tl_Nil)
        with Some have r: "r < length (objects h)"
          using in_store by simp
        with u2 have "lookup (objects h2) r = Some (objects h ! r)"
          by (rule unchanged_lookup_objects)
        then have "lookup (objects h2 @ os) r = Some (objects h ! r)"
          by (rule lookup_append_left)
        with Some r show ?thesis
          by (simp add: deref_simps lookup_def)
      qed
      have run: "getCroppedWaypoints_heap this g c src tgt =
           (Inr (length (arrays h2)),
            h2 \<lparr> objects := objects h2 @
                   [merged_object (objects h ! p0) p0
                      (case ?Is of None \<Rightarrow> objects h ! p0 | Some ob \<Rightarrow> ob),
                    merged_object (objects h ! pn) pn
                      (case ?It of None \<Rightarrow> objects h ! pn | Some ob \<Rightarrow> ob)],
                 arrays := arrays h2 @
                   [Some (length (objects h2)) # butlast (tl refs)
                      @ [Some (Suc (length (objects h2)))]] \<rparr>)"
        using getCroppedWaypoints_heap_run [OF props_g d1 d2 arr_2 psd pob0 a ptd pobn b]
        by (simp add: sl)
      have first: "lookup (objects h2 @ [m0, mn]) (length (objects h2)) = Some m0" for m0 mn
        by (simp add: lookup_def)
      have second: "lookup (objects h2 @ [m0, mn]) (Suc (length (objects h2))) = Some mn"
        for m0 mn
        by (simp add: lookup_def nth_append)
      have middle: "map (deref (objects h2 @ os)) (butlast (tl refs)) =
                      map (deref (objects h)) (butlast (tl refs))" for os
        using inner by simp
      show ?thesis
        using p0 pn
        by (simp add: run returned_waypoints_def lookup_append_new deref_simps first second
            middle)
    qed
  qed
qed

lemma getCroppedWaypoints_heap_repeat:
  assumes props: "heap_props h c = Some (cs, ct, wa)"
    and arr: "lookup (arrays h) wa = Some refs"
    and valid: "list_all (\<lambda>v. case v of None \<Rightarrow> True | Some r \<Rightarrow> r < length (objects h)) refs"
    and stable: "\<forall>g. unchanged h g \<longrightarrow>
      heap_getConnectionPath this g wa = heap_getConnectionPath this h wa"
  shows "returned_waypoints
           (getCroppedWaypoints_heap this (snd (getCroppedWaypoints_heap this h c src tgt))
              c src tgt) =
         returned_waypoints (getCroppedWaypoints_heap this h c src tgt)"
proof -
  have u: "unchanged h (snd (getCroppedWaypoints_heap this h c src tgt))"
    by (rule unchanged_getCroppedWaypoints_heap)
  show ?thesis
    using getCroppedWaypoints_heap_output [OF u props arr valid stable, of src tgt]
      getCroppedWaypoints_heap_output [OF unchanged_refl props arr valid stable, of src tgt]
    by simp
qed

text \<open>
  An \<^verbatim>\<open>undefined\<close> first or last waypoint makes \<^verbatim>\<open>getCroppedWaypoints\<close> throw, with
  or without an intersection: the object of the intersection cannot stand for it.
\<close>

lemma undefined_endpoint_throws:
  assumes props: "heap_props h c = Some (cs, ct, wa)"
    and arr: "lookup (arrays h) wa = Some refs"
    and valid: "list_all (\<lambda>v. case v of None \<Rightarrow> True | Some r \<Rightarrow> r < length (objects h)) refs"
    and stable: "\<forall>g. unchanged h g \<longrightarrow>
      heap_getConnectionPath this g wa = heap_getConnectionPath this h wa"
    and undef: "js_element refs 0 = None \<or> js_element refs (int (length refs) - 1) = None"
  shows "fst (getCroppedWaypoints_heap this h c src tgt) = Inl TypeError"
proof -
  have "returned_waypoints (getCroppedWaypoints_heap this h c src tgt) = Inl TypeError"
    using getCroppedWaypoints_heap_output [OF unchanged_refl props arr valid stable, of src tgt]
      undef
    by (auto split: option.splits)
  then show ?thesis
    by (cases "getCroppedWaypoints_heap this h c src tgt")
       (auto simp: returned_waypoints_def split: sum.splits)
qed

lemma example_heap_stable:
  "unchanged example_heap g \<Longrightarrow>
     heap_getConnectionPath example_heap_this g 0 =
     heap_getConnectionPath example_heap_this example_heap 0"
  by (auto simp: unchanged_iff example_heap_def example_heap_this_def lookup_def deref_def
      nth_append)

subsection \<open>The store embedding agrees with the value embedding\<close>

text \<open>
  When the waypoints of the store represent the waypoint values and the collaborators
  correspond, \<^verbatim>\<open>getCroppedWaypoints\<close> on the store fails exactly when it fails on
  values, and otherwise the objects of the array it returns represent the values it
  returns.
\<close>

lemma matches_append: "matches objs ob w \<Longrightarrow> matches (objs @ os) ob w"
proof (induction w arbitrary: ob)
  case (Waypoint x y orig)
  show ?case
  proof (cases orig)
    case (Value w')
    with Waypoint.prems obtain r ob' where r: "prop_original ob = Value r"
      and l: "lookup objs r = Some ob'" and m: "matches objs ob' w'"
      by (auto split: property.splits option.splits)
    have "matches (objs @ os) ob' w'"
      using Waypoint.IH [of w' ob'] Value m by simp
    with Waypoint.prems Value r l show ?thesis
      by (simp add: lookup_append_left)
  qed (use Waypoint.prems in simp_all)
qed

lemma matches_fields:
  "matches objs ob w \<Longrightarrow> prop_x ob = wp_x w \<and> prop_y ob = wp_y w"
  by (cases w) simp

lemma matches_original_plain:
  "matches objs ob w \<Longrightarrow> original w = Absent \<Longrightarrow> prop_original ob = Absent"
  "matches objs ob w \<Longrightarrow> original w = Undefined \<Longrightarrow> prop_original ob = Undefined"
  "matches objs ob w \<Longrightarrow> original w = Null \<Longrightarrow> prop_original ob = Null"
  by (cases w; simp)+

lemma matches_original_Value:
  "matches objs ob w \<Longrightarrow> original w = Value w' \<Longrightarrow>
     \<exists>r ob'. prop_original ob = Value r \<and> lookup objs r = Some ob' \<and> matches objs ob' w'"
  by (cases w) (auto split: property.splits option.splits)

lemma matches_anchor:
  assumes p: "matches objs pob pw" and l: "lookup objs p0 = Some pob"
  shows "matches objs
           \<lparr> prop_x = x, prop_y = y,
             prop_original = own (js_or (read (prop_original pob)) (Some p0)) \<rparr>
           (Waypoint x y (own (js_or (read (original pw)) (Some pw))))"
proof (cases "original pw")
  case (Value w)
  from matches_original_Value [OF p Value] Value show ?thesis
    by (auto simp: own_read_or own_def read_def js_or_def)
next
  case Absent
  with matches_original_plain(1) [OF p] p l show ?thesis
    by (simp add: own_def read_def js_or_def)
next
  case Undefined
  with matches_original_plain(2) [OF p] p l show ?thesis
    by (simp add: own_def read_def js_or_def)
next
  case Null
  with matches_original_plain(3) [OF p] p l show ?thesis
    by (simp add: own_def read_def js_or_def)
qed

lemma matches_merged:
  assumes a: "matches objs aob a" and p: "matches objs pob pw"
    and l: "lookup objs p0 = Some pob"
  shows "matches objs (merged_object pob p0 aob) (cropped_end pw a)"
proof (cases "original a")
  case (Value w)
  from matches_original_Value [OF a Value] matches_fields [OF a] Value show ?thesis
    by (auto simp: assign_property_simps)
next
  case Absent
  with matches_original_plain(1) [OF a] matches_fields [OF a]
    matches_anchor [OF p l, of "wp_x a" "wp_y a"]
  show ?thesis
    by (simp add: assign_property_simps del: matches.simps)
next
  case Undefined
  with matches_original_plain(2) [OF a] matches_fields [OF a] show ?thesis
    by (simp add: assign_property_simps)
next
  case Null
  with matches_original_plain(3) [OF a] matches_fields [OF a] show ?thesis
    by (simp add: assign_property_simps)
qed

lemma represents_lookup:
  "represents objs v w \<Longrightarrow>
     \<exists>r. v = Some r \<and> r < length objs \<and> matches objs (objs ! r) w"
  by (cases v) (auto simp: represents_def deref_def lookup_def split: option.splits if_splits)

lemma list_all2_butlast_tl:
  "list_all2 P xs ys \<Longrightarrow> list_all2 P (butlast (tl xs)) (butlast (tl ys))"
proof -
  assume a: "list_all2 P xs ys"
  then have l: "length xs = length ys"
    by (rule list_all2_lengthD)
  have "butlast (tl xs) = take (length xs - 2) (drop 1 xs)"
    by (simp add: butlast_conv_take drop_Suc numeral_2_eq_2)
  moreover have "butlast (tl ys) = take (length xs - 2) (drop 1 ys)"
    by (simp add: butlast_conv_take drop_Suc numeral_2_eq_2 l)
  ultimately show ?thesis
    using a by (simp add: list_all2_takeI list_all2_dropI del: One_nat_def)
qed

lemma store_refines_values:
  fixes hthis :: "('s, 'sp, 'cp) heap_collaborators" and this :: "('s, 'tp, 'dp) collaborators"
  assumes props: "heap_props h cref = Some (prop_source c, prop_target c, wa)"
    and arr: "lookup (arrays h) wa = Some refs"
    and rep: "list_all2 (represents (objects h)) refs (waypoints_or_self c)"
    and stable: "\<forall>g. unchanged h g \<longrightarrow>
      heap_getConnectionPath hthis g wa = heap_getConnectionPath hthis h wa"
    and corr: "\<forall>shape takeFirst.
      rel_option (matches (objects h))
        (heap_getElementLineIntersection hthis (heap_getShapePath hthis shape)
           (heap_getConnectionPath hthis h wa) takeFirst)
        (getIntersection this shape (waypoints_or_self c) takeFirst)"
  shows "rel_sum (=)
           (list_all2 (\<lambda>cell w. case cell of None \<Rightarrow> False | Some ob \<Rightarrow>
              matches (objects (snd (getCroppedWaypoints_heap hthis h cref src tgt))) ob w))
           (returned_waypoints (getCroppedWaypoints_heap hthis h cref src tgt))
           (getCroppedWaypoints this c src tgt)"
proof -
  let ?wps = "waypoints_or_self c"
  let ?k = "snd (getCroppedWaypoints_heap hthis h cref src tgt)"
  let ?source = "js_or src (prop_source c)"
  let ?target = "js_or tgt (prop_target c)"
  let ?Is = "heap_getElementLineIntersection hthis (heap_getShapePath hthis ?source)
               (heap_getConnectionPath hthis h wa) True"
  let ?It = "heap_getElementLineIntersection hthis (heap_getShapePath hthis ?target)
               (heap_getConnectionPath hthis h wa) False"
  let ?M = "\<lambda>cell w. case cell of None \<Rightarrow> False | Some ob \<Rightarrow> matches (objects ?k) ob w"
  from rep have len: "length refs = length ?wps"
    by (rule list_all2_lengthD)
  have el: "\<exists>r. refs ! i = Some r \<and> r < length (objects h)
              \<and> matches (objects h) (objects h ! r) (?wps ! i)"
    if "i < length refs" for i
    using rep that by (auto dest: list_all2_nthD intro: represents_lookup)
  have valid: "list_all (\<lambda>v. case v of None \<Rightarrow> True | Some r \<Rightarrow> r < length (objects h)) refs"
    unfolding list_all_iff
  proof
    fix v assume "v \<in> set refs"
    then obtain i where "i < length refs" "refs ! i = v"
      by (auto simp: in_set_conv_nth)
    with el [of i] show "case v of None \<Rightarrow> True | Some r \<Rightarrow> r < length (objects h)"
      by auto
  qed
  note out = getCroppedWaypoints_heap_output [OF unchanged_refl props arr valid stable,
      of src tgt]
  have "unchanged h ?k"
    by (rule unchanged_getCroppedWaypoints_heap)
  then obtain os where os: "objects ?k = objects h @ os"
    by (auto simp: unchanged_iff)
  have mono: "matches (objects ?k) ob w" if "matches (objects h) ob w" for ob w
    unfolding os using that by (rule matches_append)
  show ?thesis
  proof (cases "refs = []")
    case True
    with len have "?wps = []" by simp
    then have "getCroppedWaypoints this c src tgt = Inl TypeError"
      by (rule getCroppedWaypoints_empty)
    with True out show ?thesis by (simp add: js_element_empty)
  next
    case ne: False
    with len have wne: "?wps \<noteq> []" by auto
    from el [of 0] ne wne obtain p0 where h0: "hd refs = Some p0" "p0 < length (objects h)"
      "matches (objects h) (objects h ! p0) (hd ?wps)"
      by (auto simp: hd_conv_nth)
    from el [of "length refs - 1"] ne wne len obtain pn where hn: "last refs = Some pn"
      "pn < length (objects h)" "matches (objects h) (objects h ! pn) (last ?wps)"
      by (auto simp: last_conv_nth)
    have l0: "lookup (objects h) p0 = Some (objects h ! p0)"
      using h0 by (simp add: lookup_def)
    have ln: "lookup (objects h) pn = Some (objects h ! pn)"
      using hn by (simp add: lookup_def)
    define a where "a = (case getIntersection this ?source ?wps True of
                           None \<Rightarrow> hd ?wps | Some p \<Rightarrow> p)"
    define b where "b = (case getIntersection this ?target ?wps False of
                           None \<Rightarrow> last ?wps | Some p \<Rightarrow> p)"
    have va: "actual (getDockingPoint this ?wps ?source True) = Some a"
      using wne by (simp add: actual_getDockingPoint js_index_first js_or_def a_def
          split: option.splits)
    have vb: "actual (getDockingPoint this ?wps ?target False) = Some b"
      using wne by (simp add: actual_getDockingPoint js_index_last js_or_def b_def
          split: option.splits)
    have ma: "matches (objects h) (case ?Is of None \<Rightarrow> objects h ! p0 | Some ob \<Rightarrow> ob) a"
      using corr [rule_format, of ?source True] h0
      by (auto simp: a_def elim!: option.rel_cases)
    have mb: "matches (objects h) (case ?It of None \<Rightarrow> objects h ! pn | Some ob \<Rightarrow> ob) b"
      using corr [rule_format, of ?target False] hn
      by (auto simp: b_def elim!: option.rel_cases)
    have first: "?M (Some (merged_object (objects h ! p0) p0
                   (case ?Is of None \<Rightarrow> objects h ! p0 | Some ob \<Rightarrow> ob)))
                 (cropped_end (hd ?wps) a)"
      using mono [OF matches_merged [OF ma h0(3) l0]] by (simp del: matches.simps)
    have final: "?M (Some (merged_object (objects h ! pn) pn
                   (case ?It of None \<Rightarrow> objects h ! pn | Some ob \<Rightarrow> ob)))
                 (cropped_end (last ?wps) b)"
      using mono [OF matches_merged [OF mb hn(3) ln]] by (simp del: matches.simps)
    have "list_all2 (represents (objects h)) (butlast (tl refs)) (butlast (tl ?wps))"
      using rep by (rule list_all2_butlast_tl)
    then have middle: "list_all2 ?M (map (deref (objects h)) (butlast (tl refs)))
                         (butlast (tl ?wps))"
      by (auto simp: list_all2_conv_all_nth represents_def intro: mono split: option.splits)
    have val: "getCroppedWaypoints this c src tgt =
                 Inr (cropped_end (hd ?wps) a # butlast (tl ?wps) @ [cropped_end (last ?wps) b])"
      by (rule getCroppedWaypoints_nonempty [OF wne va vb])
    show ?thesis
      unfolding val using ne out h0(1) hn(1) first final middle
      by (simp add: list_all2_appendI js_element_ends del: matches.simps)
  qed
qed

lemma store_refines_values_example:
  "rel_sum (=)
     (list_all2 (\<lambda>cell w. case cell of None \<Rightarrow> False | Some ob \<Rightarrow>
        matches (objects (snd (getCroppedWaypoints_heap example_heap_this example_heap
           (ConnectionRef 0) None None))) ob w))
     (returned_waypoints (getCroppedWaypoints_heap example_heap_this example_heap
        (ConnectionRef 0) None None))
     (getCroppedWaypoints example_this
        (Connection (Some 1) (Some 2)
           [pt 50 50, pt 50 200, Waypoint (Value 250) (Value 50) (Value (pt 260 60))])
        None None)"
proof (rule store_refines_values [where wa = 0 and refs = "[Some 0, Some 1, Some 2]"])
  show "heap_props example_heap (ConnectionRef 0) =
          Some (prop_source (Connection (Some 1) (Some 2)
                  [pt 50 50, pt 50 200, Waypoint (Value 250) (Value 50) (Value (pt 260 60))]),
                prop_target (Connection (Some 1) (Some 2)
                  [pt 50 50, pt 50 200, Waypoint (Value 250) (Value 50) (Value (pt 260 60))]), 0)"
    by (simp add: example_heap_def lookup_def)
  show "lookup (arrays example_heap) 0 = Some [Some 0, Some 1, Some 2]"
    by (simp add: example_heap_def lookup_def)
  show "list_all2 (represents (objects example_heap)) [Some 0, Some 1, Some 2]
          (waypoints_or_self (Connection (Some (1::nat)) (Some 2)
             [pt 50 50, pt 50 200, Waypoint (Value 250) (Value 50) (Value (pt 260 60))]))"
    by (simp add: represents_def deref_def example_heap_def lookup_def pt_def)
  show "\<forall>g. unchanged example_heap g \<longrightarrow>
          heap_getConnectionPath example_heap_this g 0 =
          heap_getConnectionPath example_heap_this example_heap 0"
    using example_heap_stable by blast
  show "\<forall>shape takeFirst.
          rel_option (matches (objects example_heap))
            (heap_getElementLineIntersection example_heap_this
               (heap_getShapePath example_heap_this shape)
               (heap_getConnectionPath example_heap_this example_heap 0) takeFirst)
            (getIntersection example_this shape
               (waypoints_or_self (Connection (Some 1) (Some 2)
                  [pt 50 50, pt 50 200, Waypoint (Value 250) (Value 50) (Value (pt 260 60))]))
               takeFirst)"
    by (simp add: example_heap_this_def example_this_def getIntersection_def)
qed

subsection \<open>Purity\<close>

text \<open>
  Claim C8. Both operations are pure. Whatever the arguments, every object, array and
  connection that exists before a call of \<^verbatim>\<open>getDockingPoint\<close> or of
  \<^verbatim>\<open>getCroppedWaypoints\<close> exists unchanged after it: the waypoint sequence, the
  waypoints and the connection are not written to. And a second call on the state the first
  one leaves returns what the first returned, as long as the graphics factory gives the same
  connection path for the unchanged waypoints: the same docking point, index and actual
  coordinates for \<^verbatim>\<open>getDockingPoint\<close>, and an array of objects with the same
  contents, or the same error, for \<^verbatim>\<open>getCroppedWaypoints\<close> when its argument is
  valid.
\<close>

theorem docking_is_pure:
  fixes this :: "('s, 'sp, 'cp) heap_collaborators"
  shows "unchanged h (snd (getDockingPoint_heap this h wa shape dockStart))
       \<and> unchanged h (snd (getCroppedWaypoints_heap this h c src tgt))
       \<and> ((\<forall>g. unchanged h g \<longrightarrow>
               heap_getConnectionPath this g wa = heap_getConnectionPath this h wa) \<longrightarrow>
            returned_descriptor
              (getDockingPoint_heap this (snd (getDockingPoint_heap this h wa shape dockStart))
                 wa shape dockStart) =
            returned_descriptor (getDockingPoint_heap this h wa shape dockStart))
       \<and> (valid_input h c \<and>
            (\<forall>g cs ct wa'. unchanged h g \<and> heap_props h c = Some (cs, ct, wa') \<longrightarrow>
               heap_getConnectionPath this g wa' = heap_getConnectionPath this h wa') \<longrightarrow>
            returned_waypoints
              (getCroppedWaypoints_heap this (snd (getCroppedWaypoints_heap this h c src tgt))
                 c src tgt) =
            returned_waypoints (getCroppedWaypoints_heap this h c src tgt))"
proof -
  have one: "unchanged h (snd (getDockingPoint_heap this h wa shape dockStart))"
    by (rule unchanged_getDockingPoint_heap)
  have two: "unchanged h (snd (getCroppedWaypoints_heap this h c src tgt))"
    by (rule unchanged_getCroppedWaypoints_heap)
  have three: "returned_descriptor
              (getDockingPoint_heap this (snd (getDockingPoint_heap this h wa shape dockStart))
                 wa shape dockStart) =
            returned_descriptor (getDockingPoint_heap this h wa shape dockStart)"
    if "\<forall>g. unchanged h g \<longrightarrow>
               heap_getConnectionPath this g wa = heap_getConnectionPath this h wa"
    using that by (rule getDockingPoint_heap_repeat)
  have four: "returned_waypoints
              (getCroppedWaypoints_heap this (snd (getCroppedWaypoints_heap this h c src tgt))
                 c src tgt) =
            returned_waypoints (getCroppedWaypoints_heap this h c src tgt)"
    if v: "valid_input h c"
      and st: "\<forall>g cs ct wa'. unchanged h g \<and> heap_props h c = Some (cs, ct, wa') \<longrightarrow>
               heap_getConnectionPath this g wa' = heap_getConnectionPath this h wa'"
  proof -
    from v obtain cs ct wa' refs where props: "heap_props h c = Some (cs, ct, wa')"
      and arr: "lookup (arrays h) wa' = Some refs"
      and valid: "list_all (\<lambda>v. case v of None \<Rightarrow> True | Some r \<Rightarrow> r < length (objects h)) refs"
      by (auto simp: valid_input_def split: option.splits)
    from st props have stable: "\<forall>g. unchanged h g \<longrightarrow>
        heap_getConnectionPath this g wa' = heap_getConnectionPath this h wa'"
      by blast
    show ?thesis
      using props arr valid stable by (rule getCroppedWaypoints_heap_repeat)
  qed
  from one two three four show ?thesis by blast
qed

theorem docking_is_pure_witness:
  "valid_input example_heap (ConnectionRef 0)
   \<and> getCroppedWaypoints_heap example_heap_this example_heap (ConnectionRef 0) None None =
       (Inr 1,
        example_heap
          \<lparr> objects := objects example_heap @
               [\<lparr> prop_x = Value 100, prop_y = Value 50, prop_original = Absent \<rparr>,
                \<lparr> prop_x = Value 200, prop_y = Value 50, prop_original = Absent \<rparr>,
                \<lparr> prop_x = Value 100, prop_y = Value 50, prop_original = Value 0 \<rparr>,
                \<lparr> prop_x = Value 200, prop_y = Value 50, prop_original = Value 3 \<rparr>],
             arrays := arrays example_heap @ [[Some 6, Some 1, Some 7]] \<rparr>)
   \<and> returned_waypoints
       (getCroppedWaypoints_heap example_heap_this
          (snd (getCroppedWaypoints_heap example_heap_this example_heap (ConnectionRef 0)
             None None))
          (ConnectionRef 0) None None) =
       Inr [Some \<lparr> prop_x = Value 100, prop_y = Value 50, prop_original = Value 0 \<rparr>,
            Some \<lparr> prop_x = Value 50, prop_y = Value 200, prop_original = Absent \<rparr>,
            Some \<lparr> prop_x = Value 200, prop_y = Value 50, prop_original = Value 3 \<rparr>]"
proof -
  have v: "valid_input example_heap (ConnectionRef 0)"
    by (simp add: valid_input_def example_heap_def lookup_def)
  have st: "\<forall>g cs ct wa'. unchanged example_heap g \<and>
        heap_props example_heap (ConnectionRef 0) = Some (cs, ct, wa') \<longrightarrow>
        heap_getConnectionPath example_heap_this g wa' =
        heap_getConnectionPath example_heap_this example_heap wa'"
    using example_heap_stable by (auto simp: example_heap_def lookup_def)
  have run: "getCroppedWaypoints_heap example_heap_this example_heap (ConnectionRef 0) None None =
       (Inr 1,
        example_heap
          \<lparr> objects := objects example_heap @
               [\<lparr> prop_x = Value 100, prop_y = Value 50, prop_original = Absent \<rparr>,
                \<lparr> prop_x = Value 200, prop_y = Value 50, prop_original = Absent \<rparr>,
                \<lparr> prop_x = Value 100, prop_y = Value 50, prop_original = Value 0 \<rparr>,
                \<lparr> prop_x = Value 200, prop_y = Value 50, prop_original = Value 3 \<rparr>],
             arrays := arrays example_heap @ [[Some 6, Some 1, Some 7]] \<rparr>)"
    by (simp add: getCroppedWaypoints_heap_def getDockingPoint_heap_def
        getIntersection_heap_def dockingToPoint_heap_def assign_heap_def alloc_object_def
        alloc_array_def unshift_def push_def example_heap_def example_heap_this_def
        lookup_def deref_def js_element_def js_index_def js_or_def js_slice_def
        assign_property_def read_def own_def Let_def)
  have out: "returned_waypoints
       (getCroppedWaypoints_heap example_heap_this example_heap (ConnectionRef 0) None None) =
       Inr [Some \<lparr> prop_x = Value 100, prop_y = Value 50, prop_original = Value 0 \<rparr>,
            Some \<lparr> prop_x = Value 50, prop_y = Value 200, prop_original = Absent \<rparr>,
            Some \<lparr> prop_x = Value 200, prop_y = Value 50, prop_original = Value 3 \<rparr>]"
    unfolding run by (simp add: returned_waypoints_def example_heap_def lookup_def deref_def)
  show ?thesis
    using docking_is_pure [where this = example_heap_this and h = example_heap
        and c = "ConnectionRef 0" and src = None and tgt = None and wa = 0 and shape = None
        and dockStart = True] v st run out
    by simp
qed

end
